theory Spec2Isabelle
  imports Main "HOL-Library.Sublist"
begin

section \<open>Python strings\<close>

text \<open>
  A Python \<open>str\<close> is modelled as a \<^typ>\<open>string\<close>, the list of its bytes in UTF-8. All
  templates of \<open>bootstrap.py\<close> are ASCII; the only non-ASCII text is the pictographs of
  the console messages. The string methods below are the ones of the standard library
  restricted to the ASCII repertoire: a byte above 127 is neither a letter nor white
  space for them.
\<close>

definition newline :: char where
  "newline = CHR 0x0A"

definition ascii_uppercase :: string where
  "ascii_uppercase = ''ABCDEFGHIJKLMNOPQRSTUVWXYZ''"

definition ascii_lowercase :: string where
  "ascii_lowercase = ''abcdefghijklmnopqrstuvwxyz''"

definition digits :: string where
  "digits = ''0123456789''"

text \<open>\<open>str.lower()\<close>: every cased character is mapped to its lowercase counterpart.\<close>

definition lower_char :: "char \<Rightarrow> char" where
  "lower_char c =
     (case map_of (zip ascii_uppercase ascii_lowercase) c of Some l \<Rightarrow> l | None \<Rightarrow> c)"

definition lower :: "string \<Rightarrow> string" where
  "lower s = map lower_char s"

text \<open>
  \<open>str.replace(old, new)\<close>: every non-overlapping occurrence of \<open>old\<close>, found from the
  left, is replaced by \<open>new\<close>. With an empty \<open>old\<close> Python inserts \<open>new\<close> before every
  character and at the end.
\<close>

function replace :: "string \<Rightarrow> string \<Rightarrow> string \<Rightarrow> string" where
  "replace old new [] = (if old = [] then new else [])"
| "replace old new (c # cs) =
     (if old = [] then new @ c # replace old new cs
      else if prefix old (c # cs) then new @ replace old new (drop (length old) (c # cs))
      else c # replace old new cs)"
  by pat_completeness auto
termination
  by (relation "measure (\<lambda>(old, new, s). length s)") auto

text \<open>\<open>sep.join(xs)\<close>.\<close>

fun join :: "string \<Rightarrow> string list \<Rightarrow> string" where
  "join sep [] = []"
| "join sep [x] = x"
| "join sep (x # y # ys) = x @ sep @ join sep (y # ys)"

section \<open>The package name\<close>

text \<open>
  \<^verbatim>\<open>package_name = project_name.replace("-", "_").lower()\<close> (the first statement of
  \<open>bootstrap\<close>).
\<close>

definition package_name :: "string \<Rightarrow> string" where
  "package_name project_name = lower (replace ''-'' ''_'' project_name)"

text \<open>
  The code point of a character, and the ASCII characters: the ones on which the string
  methods above are exactly Python's.
\<close>

definition is_ascii :: "char \<Rightarrow> bool" where
  "is_ascii c = ((of_char c :: nat) < 128)"

text \<open>
  What the specification says of the package name, on code points: a hyphen (45) becomes
  an underscore (95), a capital letter (65 to 90) becomes the small one, 32 further on,
  and nothing else changes.
\<close>

definition normalised_code :: "nat \<Rightarrow> nat" where
  "normalised_code k = (if k = 45 then 95 else if 65 \<le> k \<and> k \<le> 90 then k + 32 else k)"

subsection \<open>What a safe package name is\<close>

text \<open>
  The glossary of the specification calls the package identifier filesystem-and-import-safe.
  Following these words: a name that can be imported is a Python identifier
  (a letter or underscore, then letters, digits and underscores) that is not a reserved
  word, and a name that is a path component is not empty, has no separator and no NUL
  byte, and is neither \<open>.\<close> nor \<open>..\<close>.
\<close>

definition identifier_start :: "char \<Rightarrow> bool" where
  "identifier_start c = (c \<in> set (ascii_uppercase @ ascii_lowercase @ ''_''))"

definition identifier_char :: "char \<Rightarrow> bool" where
  "identifier_char c = (c \<in> set (ascii_uppercase @ ascii_lowercase @ digits @ ''_''))"

definition is_identifier :: "string \<Rightarrow> bool" where
  "is_identifier s = (case s of [] \<Rightarrow> False | c # cs \<Rightarrow> identifier_start c \<and> list_all identifier_char cs)"

definition reserved_words :: "string list" where
  "reserved_words =
     [''False'', ''None'', ''True'', ''and'', ''as'', ''assert'', ''async'', ''await'',
      ''break'', ''class'', ''continue'', ''def'', ''del'', ''elif'', ''else'', ''except'',
      ''finally'', ''for'', ''from'', ''global'', ''if'', ''import'', ''in'', ''is'',
      ''lambda'', ''nonlocal'', ''not'', ''or'', ''pass'', ''raise'', ''return'', ''try'',
      ''while'', ''with'', ''yield'']"

definition path_component_safe :: "string \<Rightarrow> bool" where
  "path_component_safe s =
     (s \<noteq> [] \<and> CHR ''/'' \<notin> set s \<and> CHR 0x00 \<notin> set s \<and> s \<noteq> ''.'' \<and> s \<noteq> ''..'')"

definition import_safe :: "string \<Rightarrow> bool" where
  "import_safe s = (is_identifier s \<and> s \<notin> set reserved_words \<and> path_component_safe s)"

text \<open>
  The project names for which the derivation does give such a name: letters, digits,
  hyphens and underscores, not starting with a digit, and not spelling a reserved word.
\<close>

definition project_name_char :: "char \<Rightarrow> bool" where
  "project_name_char c = (c \<in> set (ascii_uppercase @ ascii_lowercase @ digits @ ''-_''))"

definition plain_project_name :: "string \<Rightarrow> bool" where
  "plain_project_name n =
     (n \<noteq> [] \<and> list_all project_name_char n \<and> hd n \<notin> set digits
      \<and> package_name n \<notin> set reserved_words)"

section \<open>Rendering: \<open>textwrap.dedent\<close> and \<open>str.lstrip\<close>\<close>

text \<open>
  \<open>str.lstrip()\<close> removes the leading white space of the whole text. These are the
  ASCII characters for which \<open>str.isspace\<close> holds.
\<close>

definition is_space :: "char \<Rightarrow> bool" where
  "is_space c =
     (c \<in> set [CHR 0x09, CHR 0x0A, CHR 0x0B, CHR 0x0C, CHR 0x0D,
                CHR 0x1C, CHR 0x1D, CHR 0x1E, CHR 0x1F, CHR 0x20])"

definition lstrip :: "string \<Rightarrow> string" where
  "lstrip s = dropWhile is_space s"

text \<open>The lines of a text: \<open>text.split("\n")\<close>.\<close>

fun split_newline :: "string \<Rightarrow> string list" where
  "split_newline [] = [[]]"
| "split_newline (c # cs) =
     (if c = newline then [] # split_newline cs
      else (case split_newline cs of [] \<Rightarrow> [[c]] | l # ls \<Rightarrow> (c # l) # ls))"

text \<open>
  \<open>textwrap.dedent\<close> as CPython 3.12 and earlier implement it, line by line.
  Its three regular expressions work on lines: \<^verbatim>\<open>^[ \t]+$\<close> empties a line of blanks
  and tabs, \<^verbatim>\<open>(^[ \t]*)(?:[^ \t\n])\<close> gives the indentation of every line that has
  another character, and \<^verbatim>\<open>(?m)^margin\<close> removes the margin where a line starts
  with it.
\<close>

definition is_blank :: "char \<Rightarrow> bool" where
  "is_blank c = (c = CHR 0x20 \<or> c = CHR 0x09)"

definition whitespace_only_sub :: "string \<Rightarrow> string" where
  "whitespace_only_sub l = (if list_all is_blank l then [] else l)"

definition leading_whitespace :: "string list \<Rightarrow> string list" where
  "leading_whitespace ls = map (takeWhile is_blank) (filter (\<lambda>l. l \<noteq> []) ls)"

text \<open>
  One turn of the loop over the indentations: the first one is the margin; a deeper one
  keeps it; a shallower one replaces it; otherwise the margin is cut at the first
  character that differs.
\<close>

fun margin_step :: "string option \<Rightarrow> string \<Rightarrow> string option" where
  "margin_step None indent = Some indent"
| "margin_step (Some margin) indent =
     Some (if prefix margin indent then margin
           else if prefix indent margin then indent
           else longest_common_prefix margin indent)"

definition remove_margin :: "string \<Rightarrow> string \<Rightarrow> string" where
  "remove_margin margin l = (if prefix margin l then drop (length margin) l else l)"

definition dedent :: "string \<Rightarrow> string" where
  "dedent text =
     (let ls = map whitespace_only_sub (split_newline text) in
      case foldl margin_step None (leading_whitespace ls) of
        None \<Rightarrow> join [newline] ls
      | Some margin \<Rightarrow>
          if margin = [] then join [newline] ls
          else join [newline] (map (remove_margin margin) ls))"

text \<open>What \<open>create_file\<close> writes for a template: \<^verbatim>\<open>textwrap.dedent(content).lstrip()\<close>.\<close>

definition render :: "string \<Rightarrow> string" where
  "render content = lstrip (dedent content)"

text \<open>
  The templates are indented in the source by the margin of the call they stand in, eight
  blanks. A line of a template is well formed for a margin when it has no line break and
  is empty, is the margin alone, or is the margin followed by text that is not only
  blanks and tabs.
\<close>

definition source_margin :: string where
  "source_margin = ''        ''"

definition template_line :: "string \<Rightarrow> string \<Rightarrow> bool" where
  "template_line m t =
     (newline \<notin> set t \<and> (t = [] \<or> t = m \<or> (prefix m t \<and> \<not> list_all is_blank t)))"

text \<open>
  What the specification says of rendering, line by line: a line is blank when it has only
  blanks and tabs, and an indentation is common to the lines of a text when it is made
  of blanks and tabs and every line that is not blank starts with it.
\<close>

definition blank_line :: "string \<Rightarrow> bool" where
  "blank_line l = list_all is_blank l"

definition common_indent :: "string \<Rightarrow> string list \<Rightarrow> bool" where
  "common_indent m ls = (list_all is_blank m \<and> list_all (\<lambda>l. blank_line l \<or> prefix m l) ls)"

section \<open>Effects\<close>

text \<open>
  A path is the list of its components below the root; \<open>p / name\<close> appends a component
  and \<open>p.parent\<close> drops the last one. \<open>bootstrap\<close> is called with a resolved, absolute
  project directory, so \<open>str(p)\<close> starts every component with a slash.
\<close>

type_synonym path = "string list"

definition path_str :: "path \<Rightarrow> string" where
  "path_str p = (if p = [] then ''/'' else concat (map (\<lambda>s. CHR ''/'' # s) p))"

definition parent :: "path \<Rightarrow> path" where
  "parent p = butlast p"

text \<open>
  The program acts on the world through \<open>Path.mkdir\<close>, \<open>Path.write_text\<close>,
  \<open>subprocess.run\<close> and \<open>print\<close>. The first three are answered by the operating system:
  a directory or a file operation succeeds or raises \<open>OSError\<close>; a child process that
  started returns its exit code and its captured error stream, one that could not be
  started raises \<open>OSError\<close> too. The world \<open>'w\<close> and its answers are arbitrary.
\<close>

record 'w os =
  os_mkdir :: "path \<Rightarrow> 'w \<Rightarrow> bool \<times> 'w"
  os_write_text :: "path \<Rightarrow> string \<Rightarrow> 'w \<Rightarrow> bool \<times> 'w"
  os_subprocess_run :: "string list \<Rightarrow> path \<Rightarrow> 'w \<Rightarrow> (int \<times> string) option \<times> 'w"

text \<open>
  Every effect is logged, in order, with the answer it got. A message that the console
  refused and a child process whose output was not text are logged as such; they occur
  only on a host (below), where printing and decoding can fail.
\<close>

datatype event =
    Print string
  | PrintFailed string
  | Mkdir path bool
  | WriteText path string bool
  | SubprocessRun "string list" path "(int \<times> string) option"
  | SubprocessUndecodable "string list" path int

text \<open>
  A statement ends by returning, by \<open>sys.exit(n)\<close>, or by an exception that nothing
  catches: \<open>OSError\<close>, or \<open>UnicodeError\<close> (\<open>UnicodeEncodeError\<close> from \<open>print\<close>,
  \<open>UnicodeDecodeError\<close> from \<open>subprocess.run\<close>). A block of statements stops at the first
  one that does not return.
\<close>

datatype outcome = Returned | SystemExit int | OSError | UnicodeError

type_synonym 'w stmt = "'w \<times> event list \<Rightarrow> outcome \<times> 'w \<times> event list"

fun block :: "'w stmt list \<Rightarrow> 'w stmt" where
  "block [] s = (Returned, s)"
| "block (p # ps) s =
     (case p s of (Returned, s') \<Rightarrow> block ps s' | (out, s') \<Rightarrow> (out, s'))"

definition print :: "string \<Rightarrow> 'w stmt" where
  "print msg = (\<lambda>(w, t). (Returned, w, t @ [Print msg]))"

definition sys_exit :: "int \<Rightarrow> 'w stmt" where
  "sys_exit n = (\<lambda>s. (SystemExit n, s))"

definition mkdir :: "'w os \<Rightarrow> path \<Rightarrow> 'w stmt" where
  "mkdir os p = (\<lambda>(w, t).
     case os_mkdir os p w of
       (ok, w') \<Rightarrow> (if ok then Returned else OSError, w', t @ [Mkdir p ok]))"

definition write_text :: "'w os \<Rightarrow> path \<Rightarrow> string \<Rightarrow> 'w stmt" where
  "write_text os p content = (\<lambda>(w, t).
     case os_write_text os p content w of
       (ok, w') \<Rightarrow> (if ok then Returned else OSError, w', t @ [WriteText p content ok]))"

text \<open>The pictographs of the console messages, in UTF-8.\<close>

definition check_mark :: string where
  "check_mark = [CHR 0xE2, CHR 0x9C, CHR 0x85]"

definition cross_mark :: string where
  "cross_mark = [CHR 0xE2, CHR 0x9D, CHR 0x8C]"

definition rocket :: string where
  "rocket = [CHR 0xF0, CHR 0x9F, CHR 0x9A, CHR 0x80]"

definition parcel :: string where
  "parcel = [CHR 0xF0, CHR 0x9F, CHR 0x93, CHR 0xA6]"

definition magnifier :: string where
  "magnifier = [CHR 0xF0, CHR 0x9F, CHR 0x94, CHR 0x8D]"

definition party_popper :: string where
  "party_popper = [CHR 0xF0, CHR 0x9F, CHR 0x8E, CHR 0x89]"

subsection \<open>\<open>create_file\<close> and \<open>run\<close>\<close>

definition create_file :: "'w os \<Rightarrow> path \<Rightarrow> string \<Rightarrow> 'w stmt" where
  "create_file os path content =
     block
       [mkdir os (parent path),
        write_text os path (lstrip (dedent content)),
        print (''  '' @ check_mark @ '' Created '' @ path_str path)]"

text \<open>\<^verbatim>\<open>f"  ... Command failed: {' '.join(cmd)}"\<close>\<close>

definition failure_message :: "string list \<Rightarrow> string" where
  "failure_message cmd = ''  '' @ cross_mark @ '' Command failed: '' @ join '' '' cmd"

definition run :: "'w os \<Rightarrow> string list \<Rightarrow> path \<Rightarrow> 'w stmt" where
  "run os cmd cwd = (\<lambda>(w, t).
     case os_subprocess_run os cmd cwd w of
       (None, w') \<Rightarrow> (OSError, w', t @ [SubprocessRun cmd cwd None])
     | (Some (returncode, stderr), w') \<Rightarrow>
         (if returncode \<noteq> 0
          then block
                 [print (failure_message cmd),
                  print stderr,
                  sys_exit 1]
          else block [])
           (w', t @ [SubprocessRun cmd cwd (Some (returncode, stderr))]))"

subsection \<open>The templates\<close>

text \<open>
  The template texts of \<open>bootstrap\<close>, as the string literals of the source give them:
  every line carries the indentation of the source, and the text ends with the
  indentation of the closing quotes.
\<close>

definition pyproject_toml :: "string \<Rightarrow> string \<Rightarrow> string \<Rightarrow> string \<Rightarrow> string" where
  \<open>pyproject_toml project_name description python_version pkg =
     join [newline]
     [''        [project]'',
      ''        name = "'' @ project_name @ ''"'',
      ''        version = "0.1.0"'',
      ''        description = "'' @ description @ ''"'',
      ''        readme = "README.md"'',
      ''        requires-python = ">='' @ python_version @ ''"'',
      ''        dependencies = []'',
      '''',
      ''        [project.optional-dependencies]'',
      ''        dev = ['',
      ''            "pytest>=8.0",'',
      ''            "ruff>=0.8",'',
      ''            "pyright>=1.1",'',
      ''            "pre-commit>=4.0",'',
      ''        ]'',
      '''',
      ''        [build-system]'',
      ''        requires = ["hatchling"]'',
      ''        build-backend = "hatchling.build"'',
      '''',
      ''        [tool.hatch.build.targets.wheel]'',
      ''        packages = ["src/'' @ pkg @ ''"]'',
      '''',
      ''        [tool.ruff]'',
      ''        target-version = "py'' @ replace ''.'' [] python_version @ ''"'',
      ''        src = ["src", "tests"]'',
      ''        line-length = 88'',
      '''',
      ''        [tool.ruff.lint]'',
      ''        select = ['',
      ''            "E",    # pycodestyle errors'',
      ''            "W",    # pycodestyle warnings'',
      ''            "F",    # pyflakes'',
      ''            "I",    # isort'',
      ''            "N",    # pep8-naming'',
      ''            "UP",   # pyupgrade'',
      ''            "B",    # flake8-bugbear'',
      ''            "SIM",  # flake8-simplify'',
      ''            "TCH",  # flake8-type-checking'',
      ''            "RUF",  # ruff-specific rules'',
      ''        ]'',
      '''',
      ''        [tool.ruff.lint.isort]'',
      ''        known-first-party = ["'' @ pkg @ ''"]'',
      '''',
      ''        [tool.pyright]'',
      ''        pythonVersion = "'' @ python_version @ ''"'',
      ''        typeCheckingMode = "strict"'',
      ''        include = ["src", "tests"]'',
      ''        venvPath = "."'',
      ''        venv = ".venv"'',
      '''',
      ''        [tool.pytest.ini_options]'',
      ''        testpaths = ["tests"]'',
      ''        pythonpath = ["src"]'',
      ''        '']\<close>

definition init_py :: "string \<Rightarrow> string \<Rightarrow> string" where
  \<open>init_py project_name description =
     join [newline]
     [''        """'' @ project_name @ '': '' @ description @ ''."""'',
      ''        '']\<close>

definition test_py :: "string \<Rightarrow> string" where
  \<open>test_py pkg =
     join [newline]
     [''        """Tests for '' @ pkg @ ''."""'',
      '''',
      ''        from '' @ pkg @ '' import __doc__'',
      '''',
      '''',
      ''        def test_package_has_docstring() -> None:'',
      ''            """Verify package is importable and has a docstring."""'',
      ''            assert __doc__ is not None'',
      ''        '']\<close>

definition pre_commit_config_yaml :: "string" where
  \<open>pre_commit_config_yaml =
     join [newline]
     [''        repos:'',
      ''          - repo: https://github.com/astral-sh/ruff-pre-commit'',
      ''            rev: v0.8.6'',
      ''            hooks:'',
      ''              - id: ruff'',
      ''                args: [--fix]'',
      ''              - id: ruff-format'',
      '''',
      ''          - repo: local'',
      ''            hooks:'',
      ''              - id: pyright'',
      ''                name: pyright'',
      ''                entry: uv run pyright'',
      ''                language: system'',
      ''                types: [python]'',
      ''                pass_filenames: false'',
      ''        '']\<close>

definition ci_yml :: "string \<Rightarrow> string" where
  \<open>ci_yml python_version =
     join [newline]
     [''        name: CI'',
      '''',
      ''        on:'',
      ''          push:'',
      ''            branches: [main]'',
      ''          pull_request:'',
      ''            branches: [main]'',
      '''',
      ''        jobs:'',
      ''          check:'',
      ''            runs-on: ubuntu-latest'',
      ''            steps:'',
      ''              - uses: actions/checkout@v4'',
      '''',
      ''              - name: Install uv'',
      ''                uses: astral-sh/setup-uv@v4'',
      '''',
      ''              - name: Set up Python'',
      ''                run: uv python install '' @ python_version,
      '''',
      ''              - name: Install dependencies'',
      ''                run: uv sync --all-extras'',
      '''',
      ''              - name: Lint (ruff)'',
      ''                run: uv run ruff check src tests'',
      '''',
      ''              - name: Format check (ruff)'',
      ''                run: uv run ruff format --check src tests'',
      '''',
      ''              - name: Type check (pyright)'',
      ''                run: uv run pyright'',
      '''',
      ''              - name: Test (pytest)'',
      ''                run: uv run pytest'',
      ''        '']\<close>

definition gitignore :: "string" where
  \<open>gitignore =
     join [newline]
     [''        __pycache__/'',
      ''        *.py[cod]'',
      ''        *$py.class'',
      ''        *.egg-info/'',
      ''        dist/'',
      ''        build/'',
      ''        .venv/'',
      ''        .mypy_cache/'',
      ''        .pyright/'',
      ''        .ruff_cache/'',
      ''        .pytest_cache/'',
      ''        .coverage'',
      ''        htmlcov/'',
      ''        '']\<close>

definition readme_md :: "string \<Rightarrow> string \<Rightarrow> string" where
  \<open>readme_md project_name description =
     join [newline]
     [''        # '' @ project_name,
      '''',
      ''        '' @ description,
      '''',
      ''        ## Development'',
      '''',
      ''        ```bash'',
      ''        # Install dependencies'',
      ''        uv sync --all-extras'',
      '''',
      ''        # Run tests'',
      ''        uv run pytest'',
      '''',
      ''        # Lint and format'',
      ''        uv run ruff check src tests'',
      ''        uv run ruff format src tests'',
      '''',
      ''        # Type check'',
      ''        uv run pyright'',
      '''',
      ''        # Install pre-commit hooks'',
      ''        uv run pre-commit install'',
      ''        ```'',
      ''        '']\<close>

subsection \<open>\<open>bootstrap\<close>\<close>

text \<open>
  The body of \<open>bootstrap\<close> is one sequence of statements. It is written here in two
  lists, cut where the source has the comment \<^verbatim>\<open># --- uv init and install ---\<close>:
  the statements that scaffold the files, then the ones that set up the environment and
  run the checks.
\<close>

definition scaffold :: "'w os \<Rightarrow> path \<Rightarrow> string \<Rightarrow> string \<Rightarrow> string \<Rightarrow> 'w stmt list" where
  \<open>scaffold os project_dir project_name python_version description =
     (let pkg = package_name project_name in
        [print (newline # rocket @ '' Bootstrapping project: '' @ project_name),
         print (''   Directory: '' @ path_str project_dir),
         print (''   Package:   '' @ pkg),
         print (''   Python:    '' @ python_version @ [newline]),
         mkdir os project_dir,
         create_file os (project_dir @ [''pyproject.toml''])
           (pyproject_toml project_name description python_version pkg),
         create_file os (project_dir @ [''src'', pkg, ''__init__.py''])
           (init_py project_name description),
         create_file os (project_dir @ [''src'', pkg, ''py.typed'']) [],
         create_file os (project_dir @ [''tests'', ''__init__.py'']) [],
         create_file os (project_dir @ [''tests'', ''test_'' @ pkg @ ''.py'']) (test_py pkg),
         create_file os (project_dir @ [''.pre-commit-config.yaml'']) pre_commit_config_yaml,
         create_file os (project_dir @ [''.github'', ''workflows'', ''ci.yml''])
           (ci_yml python_version),
         create_file os (project_dir @ [''.gitignore'']) gitignore,
         create_file os (project_dir @ [''README.md'']) (readme_md project_name description)])\<close>

definition verify :: "'w os \<Rightarrow> path \<Rightarrow> string \<Rightarrow> string \<Rightarrow> 'w stmt list" where
  \<open>verify os project_dir project_name python_version =
        [print (newline # parcel @ '' Initialising uv environment...''),
         run os [''uv'', ''venv'', ''--python'', python_version] project_dir,
         print (''  '' @ check_mark @ '' Created .venv''),
         run os [''uv'', ''sync'', ''--all-extras''] project_dir,
         print (''  '' @ check_mark @ '' Installed dependencies''),
         print (newline # magnifier @ '' Running checks...''),
         run os [''uv'', ''run'', ''ruff'', ''check'', ''src'', ''tests''] project_dir,
         print (''  '' @ check_mark @ '' ruff lint passed''),
         run os [''uv'', ''run'', ''ruff'', ''format'', ''--check'', ''src'', ''tests''] project_dir,
         print (''  '' @ check_mark @ '' ruff format passed''),
         run os [''uv'', ''run'', ''pyright''] project_dir,
         print (''  '' @ check_mark @ '' pyright passed''),
         run os [''uv'', ''run'', ''pytest''] project_dir,
         print (''  '' @ check_mark @ '' pytest passed''),
         print (newline # party_popper @ '' Project '' @ [CHR 0x27] @ project_name
                @ [CHR 0x27] @ '' is ready!''),
         print (''   cd '' @ path_str project_dir),
         print (''   git init && uv run pre-commit install'' @ [newline])]\<close>

definition bootstrap :: "'w os \<Rightarrow> path \<Rightarrow> string \<Rightarrow> string \<Rightarrow> string \<Rightarrow> 'w stmt" where
  "bootstrap os project_dir project_name python_version description =
     block (scaffold os project_dir project_name python_version description
            @ verify os project_dir project_name python_version)"

section \<open>Reading a run\<close>

text \<open>
  A run of the tool is \<open>bootstrap\<close> applied to a world and the empty log. What it did is
  read off the log: the files written, the writes attempted, the commands handed to
  \<open>subprocess.run\<close>, the file system operations that failed and the commands that
  exited with a non-zero code.
\<close>

fun writes :: "event list \<Rightarrow> (path \<times> string) list" where
  "writes [] = []"
| "writes (WriteText p c ok # es) = (if ok then (p, c) # writes es else writes es)"
| "writes (e # es) = writes es"

fun write_attempts :: "event list \<Rightarrow> path list" where
  "write_attempts [] = []"
| "write_attempts (WriteText p c ok # es) = p # write_attempts es"
| "write_attempts (e # es) = write_attempts es"

fun commands :: "event list \<Rightarrow> string list list" where
  "commands [] = []"
| "commands (SubprocessRun cmd cwd r # es) = cmd # commands es"
| "commands (SubprocessUndecodable cmd cwd rc # es) = cmd # commands es"
| "commands (e # es) = commands es"

fun fs_failed :: "event \<Rightarrow> bool" where
  "fs_failed (Mkdir p ok) = (\<not> ok)"
| "fs_failed (WriteText p c ok) = (\<not> ok)"
| "fs_failed e = False"


text \<open>
  The files the specification declares, in its order (manifest, package init, type
  marker, test package init, test module, pre-commit configuration, CI workflow, ignore
  file, README), each with the content rendered for it; and the chain of external
  commands (create the environment, sync, lint, format check, type check, test).
\<close>

definition rendered_files :: "path \<Rightarrow> string \<Rightarrow> string \<Rightarrow> string \<Rightarrow> (path \<times> string) list" where
  \<open>rendered_files project_dir project_name python_version description =
     (let pkg = package_name project_name in
        [(project_dir @ [''pyproject.toml''],
            render (pyproject_toml project_name description python_version pkg)),
         (project_dir @ [''src'', pkg, ''__init__.py''], render (init_py project_name description)),
         (project_dir @ [''src'', pkg, ''py.typed''], render []),
         (project_dir @ [''tests'', ''__init__.py''], render []),
         (project_dir @ [''tests'', ''test_'' @ pkg @ ''.py''], render (test_py pkg)),
         (project_dir @ [''.pre-commit-config.yaml''], render pre_commit_config_yaml),
         (project_dir @ [''.github'', ''workflows'', ''ci.yml''], render (ci_yml python_version)),
         (project_dir @ [''.gitignore''], render gitignore),
         (project_dir @ [''README.md''], render (readme_md project_name description))])\<close>

definition command_chain :: "string \<Rightarrow> string list list" where
  "command_chain python_version =
     [[''uv'', ''venv'', ''--python'', python_version],
      [''uv'', ''sync'', ''--all-extras''],
      [''uv'', ''run'', ''ruff'', ''check'', ''src'', ''tests''],
      [''uv'', ''run'', ''ruff'', ''format'', ''--check'', ''src'', ''tests''],
      [''uv'', ''run'', ''pyright''],
      [''uv'', ''run'', ''pytest'']]"

subsection \<open>Two operating systems to run on\<close>

text \<open>
  One where every file operation succeeds and the external commands answer from a
  script, the list of exit codes and error streams still to come (an exhausted script
  answers 0); and one where directories exist and no file can be written.
\<close>

definition scripted_os :: "(int \<times> string) list os" where
  "scripted_os =
     \<lparr>os_mkdir = (\<lambda>p w. (True, w)),
      os_write_text = (\<lambda>p c w. (True, w)),
      os_subprocess_run =
        (\<lambda>cmd cwd w. case w of [] \<Rightarrow> (Some (0, []), []) | r # rs \<Rightarrow> (Some r, rs))\<rparr>"

definition readonly_os :: "unit os" where
  "readonly_os =
     \<lparr>os_mkdir = (\<lambda>p w. (True, w)),
      os_write_text = (\<lambda>p c w. (False, w)),
      os_subprocess_run = (\<lambda>cmd cwd w. (Some (0, []), w))\<rparr>"

subsection \<open>Four runs\<close>

text \<open>
  The project \<open>sample\<close> for Python 3.12 with an empty description, bootstrapped in
  \<open>/tmp/sample\<close>: once with nothing failing, once with the linter exiting with code 2,
  once with \<open>uv venv\<close> exiting with code 127, and once where no file can be written.
\<close>

definition sample_dir :: path where
  "sample_dir = [''tmp'', ''sample'']"

definition clean_run :: "outcome \<times> (int \<times> string) list \<times> event list" where
  "clean_run = bootstrap scripted_os sample_dir ''sample'' ''3.12'' [] ([], [])"

definition lint_fails :: "outcome \<times> (int \<times> string) list \<times> event list" where
  "lint_fails =
     bootstrap scripted_os sample_dir ''sample'' ''3.12'' [] ([(0, []), (0, []), (2, ''boom'')], [])"


definition readonly_run :: "outcome \<times> unit \<times> event list" where
  "readonly_run = bootstrap readonly_os sample_dir ''sample'' ''3.12'' [] ((), [])"

subsection \<open>What a statement adds to the log\<close>

text \<open>
  \<open>emits R p\<close>: from any state, \<open>p\<close> only appends to the log, and its outcome and what it
  appended satisfy \<open>R\<close>. \<open>yields proj xs\<close>: the appended events project to an initial part of
  \<open>xs\<close>, to all of it when the statement returns.
\<close>

definition emits :: "(outcome \<Rightarrow> event list \<Rightarrow> bool) \<Rightarrow> 'w stmt \<Rightarrow> bool" where
  "emits R p = (\<forall>w t. \<exists>u. snd (snd (p (w, t))) = t @ u \<and> R (fst (p (w, t))) u)"

definition yields :: "(event list \<Rightarrow> 'a list) \<Rightarrow> 'a list \<Rightarrow> outcome \<Rightarrow> event list \<Rightarrow> bool" where
  "yields proj xs out u = (prefix (proj u) xs \<and> (out = Returned \<longrightarrow> proj u = xs))"

text \<open>
  What the two parts of \<open>bootstrap\<close> add to the log. The scaffolding runs no command and
  ends by returning with no failed file operation, or by \<open>OSError\<close> right after the
  first one that failed. The checks touch no file. A command that exits with a non-zero
  code is followed by the two messages of \<open>run\<close> and \<open>sys.exit(1)\<close>, and by nothing else.
  Where no file can be written, nothing is written and at most one write is attempted.
\<close>

definition scaffold_log :: "outcome \<Rightarrow> event list \<Rightarrow> bool" where
  "scaffold_log out u =
     (commands u = [] \<and>
      (case out of
         Returned \<Rightarrow> \<not> list_ex fs_failed u
       | SystemExit n \<Rightarrow> False
       | OSError \<Rightarrow> u \<noteq> [] \<and> fs_failed (last u) \<and> \<not> list_ex fs_failed (butlast u)
       | UnicodeError \<Rightarrow> False))"

definition verify_log :: "outcome \<Rightarrow> event list \<Rightarrow> bool" where
  "verify_log out u = (write_attempts u = [] \<and> writes u = [] \<and> \<not> list_ex fs_failed u)"



section \<open>Hosts\<close>

text \<open>
  On a host, \<open>print\<close> can fail too: it raises when the console refuses the message
  (\<open>UnicodeEncodeError\<close> when the console cannot encode it; every refusal is recorded as
  \<open>UnicodeError\<close>). And \<open>subprocess.run\<close>, called with \<open>text=True\<close>, decodes what it
  captured: a child process that exited with output that is not text in the encoding of
  the locale makes it raise \<open>UnicodeDecodeError\<close>. Nothing in the program catches an
  exception, so each of them ends the run.
\<close>

datatype child = Exited int string | ExitedUndecodable int | NotStarted

record 'w host =
  host_mkdir :: "path \<Rightarrow> 'w \<Rightarrow> bool \<times> 'w"
  host_write_text :: "path \<Rightarrow> string \<Rightarrow> 'w \<Rightarrow> bool \<times> 'w"
  host_subprocess_run :: "string list \<Rightarrow> path \<Rightarrow> 'w \<Rightarrow> child \<times> 'w"
  host_print :: "string \<Rightarrow> 'w \<Rightarrow> bool \<times> 'w"

definition print_io :: "'w host \<Rightarrow> string \<Rightarrow> 'w stmt" where
  "print_io h msg = (\<lambda>(w, t).
     case host_print h msg w of
       (ok, w') \<Rightarrow>
         if ok then (Returned, w', t @ [Print msg]) else (UnicodeError, w', t @ [PrintFailed msg]))"

definition mkdir_io :: "'w host \<Rightarrow> path \<Rightarrow> 'w stmt" where
  "mkdir_io h p = (\<lambda>(w, t).
     case host_mkdir h p w of
       (ok, w') \<Rightarrow> (if ok then Returned else OSError, w', t @ [Mkdir p ok]))"

definition write_text_io :: "'w host \<Rightarrow> path \<Rightarrow> string \<Rightarrow> 'w stmt" where
  "write_text_io h p content = (\<lambda>(w, t).
     case host_write_text h p content w of
       (ok, w') \<Rightarrow> (if ok then Returned else OSError, w', t @ [WriteText p content ok]))"

definition create_file_io :: "'w host \<Rightarrow> path \<Rightarrow> string \<Rightarrow> 'w stmt" where
  "create_file_io h path content =
     block
       [mkdir_io h (parent path),
        write_text_io h path (lstrip (dedent content)),
        print_io h (''  '' @ check_mark @ '' Created '' @ path_str path)]"

definition run_io :: "'w host \<Rightarrow> string list \<Rightarrow> path \<Rightarrow> 'w stmt" where
  "run_io h cmd cwd = (\<lambda>(w, t).
     case host_subprocess_run h cmd cwd w of
       (NotStarted, w') \<Rightarrow> (OSError, w', t @ [SubprocessRun cmd cwd None])
     | (ExitedUndecodable returncode, w') \<Rightarrow>
         (UnicodeError, w', t @ [SubprocessUndecodable cmd cwd returncode])
     | (Exited returncode stderr, w') \<Rightarrow>
         (if returncode \<noteq> 0
          then block
                 [print_io h (failure_message cmd),
                  print_io h stderr,
                  sys_exit 1]
          else block [])
           (w', t @ [SubprocessRun cmd cwd (Some (returncode, stderr))]))"

definition scaffold_io :: "'w host \<Rightarrow> path \<Rightarrow> string \<Rightarrow> string \<Rightarrow> string \<Rightarrow> 'w stmt list" where
  \<open>scaffold_io h project_dir project_name python_version description =
     (let pkg = package_name project_name in
        [print_io h (newline # rocket @ '' Bootstrapping project: '' @ project_name),
         print_io h (''   Directory: '' @ path_str project_dir),
         print_io h (''   Package:   '' @ pkg),
         print_io h (''   Python:    '' @ python_version @ [newline]),
         mkdir_io h project_dir,
         create_file_io h (project_dir @ [''pyproject.toml''])
           (pyproject_toml project_name description python_version pkg),
         create_file_io h (project_dir @ [''src'', pkg, ''__init__.py''])
           (init_py project_name description),
         create_file_io h (project_dir @ [''src'', pkg, ''py.typed'']) [],
         create_file_io h (project_dir @ [''tests'', ''__init__.py'']) [],
         create_file_io h (project_dir @ [''tests'', ''test_'' @ pkg @ ''.py'']) (test_py pkg),
         create_file_io h (project_dir @ [''.pre-commit-config.yaml'']) pre_commit_config_yaml,
         create_file_io h (project_dir @ [''.github'', ''workflows'', ''ci.yml''])
           (ci_yml python_version),
         create_file_io h (project_dir @ [''.gitignore'']) gitignore,
         create_file_io h (project_dir @ [''README.md'']) (readme_md project_name description)])\<close>

definition verify_io :: "'w host \<Rightarrow> path \<Rightarrow> string \<Rightarrow> string \<Rightarrow> 'w stmt list" where
  \<open>verify_io h project_dir project_name python_version =
        [print_io h (newline # parcel @ '' Initialising uv environment...''),
         run_io h [''uv'', ''venv'', ''--python'', python_version] project_dir,
         print_io h (''  '' @ check_mark @ '' Created .venv''),
         run_io h [''uv'', ''sync'', ''--all-extras''] project_dir,
         print_io h (''  '' @ check_mark @ '' Installed dependencies''),
         print_io h (newline # magnifier @ '' Running checks...''),
         run_io h [''uv'', ''run'', ''ruff'', ''check'', ''src'', ''tests''] project_dir,
         print_io h (''  '' @ check_mark @ '' ruff lint passed''),
         run_io h [''uv'', ''run'', ''ruff'', ''format'', ''--check'', ''src'', ''tests''] project_dir,
         print_io h (''  '' @ check_mark @ '' ruff format passed''),
         run_io h [''uv'', ''run'', ''pyright''] project_dir,
         print_io h (''  '' @ check_mark @ '' pyright passed''),
         run_io h [''uv'', ''run'', ''pytest''] project_dir,
         print_io h (''  '' @ check_mark @ '' pytest passed''),
         print_io h (newline # party_popper @ '' Project '' @ [CHR 0x27] @ project_name
                @ [CHR 0x27] @ '' is ready!''),
         print_io h (''   cd '' @ path_str project_dir),
         print_io h (''   git init && uv run pre-commit install'' @ [newline])]\<close>

definition bootstrap_io :: "'w host \<Rightarrow> path \<Rightarrow> string \<Rightarrow> string \<Rightarrow> string \<Rightarrow> 'w stmt" where
  "bootstrap_io h project_dir project_name python_version description =
     block (scaffold_io h project_dir project_name python_version description
            @ verify_io h project_dir project_name python_version)"

text \<open>
  An operating system seen as a host: the console shows every message, and what a child
  process wrote is always text.
\<close>

definition reliable :: "'w os \<Rightarrow> 'w host" where
  "reliable os =
     \<lparr>host_mkdir = os_mkdir os,
      host_write_text = os_write_text os,
      host_subprocess_run =
        (\<lambda>cmd cwd w.
           case os_subprocess_run os cmd cwd w of
             (None, w') \<Rightarrow> (NotStarted, w')
           | (Some (returncode, stderr), w') \<Rightarrow> (Exited returncode stderr, w')),
      host_print = (\<lambda>msg w. (True, w))\<rparr>"

text \<open>
  Reading a run on a host: the messages the console refused, the commands whose output
  did not decode, the commands that end the run, whether the run ended by an exception,
  and the exit status the interpreter gives the process (that of \<open>sys.exit\<close>, and 1 after
  an exception nothing caught).
\<close>

fun print_failed :: "event \<Rightarrow> bool" where
  "print_failed (PrintFailed msg) = True"
| "print_failed e = False"






subsection \<open>A host and three runs on it\<close>

text \<open>
  A host where every file operation succeeds, the console shows every message, and the
  external commands answer from a script (an exhausted script answers with exit code 0
  and no output). On it, the project \<open>sample\<close> again: once with nothing failing, once with
  the linter exiting with code 2 and the error stream \<open>boom\<close>, once with the linter exiting
  with code 2 and an error stream that does not decode.
\<close>

definition scripted_host :: "child list host" where
  "scripted_host =
     \<lparr>host_mkdir = (\<lambda>p w. (True, w)),
      host_write_text = (\<lambda>p c w. (True, w)),
      host_subprocess_run =
        (\<lambda>cmd cwd w. case w of [] \<Rightarrow> (Exited 0 [], []) | r # rs \<Rightarrow> (r, rs)),
      host_print = (\<lambda>msg w. (True, w))\<rparr>"

definition clean_host_run :: "outcome \<times> child list \<times> event list" where
  "clean_host_run = bootstrap_io scripted_host sample_dir ''sample'' ''3.12'' [] ([], [])"



text \<open>
  What the parts of \<open>bootstrap\<close> add to the log on a host. The scaffolding runs no
  command; when it does not return, it ended at a file operation that failed or at a
  message the console refused. The checks write no file. A run with a command that ends
  it has one such command, and ends after it in one of the ways of that command; a run
  without one does not end by \<open>sys.exit\<close>.
\<close>

definition scaffold_io_log :: "outcome \<Rightarrow> event list \<Rightarrow> bool" where
  "scaffold_io_log out u =
     (commands u = [] \<and>
      (case out of
         Returned \<Rightarrow> True
       | SystemExit n \<Rightarrow> False
       | OSError \<Rightarrow> u \<noteq> [] \<and> fs_failed (last u)
       | UnicodeError \<Rightarrow> u \<noteq> [] \<and> print_failed (last u)))"

definition verify_io_log :: "outcome \<Rightarrow> event list \<Rightarrow> bool" where
  "verify_io_log out u = (writes u = [])"


section \<open>Properties of the package name\<close>

lemma replace_char:
  "replace [a] [b] s = map (\<lambda>c. if c = a then b else c) s"
  by (induction s) auto

lemma replace_char_empty:
  "replace [a] [] s = filter (\<lambda>c. c \<noteq> a) s"
  by (induction s) simp_all

lemma lower_char_idem: "lower_char (lower_char c) = lower_char c"
  by (simp add: lower_char_def ascii_uppercase_def ascii_lowercase_def)

lemma lower_char_hyphen: "lower_char (CHR ''-'') = CHR ''-''"
  by (simp add: lower_char_def ascii_uppercase_def ascii_lowercase_def)

lemma lower_char_underscore: "lower_char (CHR ''_'') = CHR ''_''"
  by (simp add: lower_char_def ascii_uppercase_def ascii_lowercase_def)

lemma lower_char_eq_hyphen: "lower_char c = CHR ''-'' \<longleftrightarrow> c = CHR ''-''"
  by (simp add: lower_char_def ascii_uppercase_def ascii_lowercase_def)

lemma package_name_map:
  "package_name n = map (\<lambda>c. if c = CHR ''-'' then CHR ''_'' else lower_char c) n"
  by (simp add: package_name_def lower_def replace_char lower_char_underscore)

lemma upper_codes_list: "map of_char ascii_uppercase = [65..<91 :: nat]"
  by code_simp

lemma upper_codes:
  "c \<in> set ascii_uppercase \<longleftrightarrow> 65 \<le> (of_char c :: nat) \<and> (of_char c :: nat) \<le> 90"
proof -
  have "c \<in> set ascii_uppercase \<longleftrightarrow> (of_char c :: nat) \<in> of_char ` set ascii_uppercase"
    by (auto simp: image_iff)
  also have "\<dots> \<longleftrightarrow> (of_char c :: nat) \<in> set [65..<91]"
    unfolding upper_codes_list [symmetric] by simp
  also have "\<dots> \<longleftrightarrow> 65 \<le> (of_char c :: nat) \<and> (of_char c :: nat) \<le> 90"
    unfolding set_upt atLeastLessThan_iff by linarith
  finally show ?thesis .
qed

lemma lower_char_code:
  "c \<in> set ascii_uppercase \<Longrightarrow> (of_char (lower_char c) :: nat) = of_char c + 32"
  by (auto simp: ascii_uppercase_def ascii_lowercase_def lower_char_def)

lemma lower_char_other: "c \<notin> set ascii_uppercase \<Longrightarrow> lower_char c = c"
  by (simp add: lower_char_def ascii_uppercase_def ascii_lowercase_def)

lemma normalised_char_code:
  "(of_char (if c = CHR ''-'' then CHR ''_'' else lower_char c) :: nat) = normalised_code (of_char c)"
proof (cases "c = CHR ''-''")
  case True
  then show ?thesis by (simp add: normalised_code_def)
next
  case False
  then have ne: "(of_char c :: nat) \<noteq> 45"
    using of_char_eq_iff [of c "CHR 0x2D", where ?'a = nat] by simp
  show ?thesis
  proof (cases "c \<in> set ascii_uppercase")
    case True
    then show ?thesis
      using False ne upper_codes [of c] lower_char_code [OF True] by (simp add: normalised_code_def)
  next
    case up: False
    then show ?thesis
      using False ne upper_codes [of c] lower_char_other [OF up] by (simp add: normalised_code_def)
  qed
qed

lemma lower_char_not_upper: "lower_char c \<notin> set ascii_uppercase"
proof (cases "c \<in> set ascii_uppercase")
  case True
  then show ?thesis
    by (auto simp: ascii_uppercase_def ascii_lowercase_def lower_char_def)
next
  case False
  then show ?thesis by (simp add: lower_char_other)
qed

text \<open>
  Claim C1. For an ASCII project name, the package name has the code points the
  specification gives: every hyphen replaced by an underscore, every capital letter by
  its small letter, everything else unchanged. So it has the length of the project
  name, no hyphen and no capital letter, and it depends on the project name only. For
  \<open>My-Cool-Tool\<close> it is \<open>my_cool_tool\<close>.
\<close>

theorem package_name_normalises:
  assumes "list_all is_ascii n"
  shows "(map of_char (package_name n) :: nat list) = map (\<lambda>c. normalised_code (of_char c)) n
       \<and> length (package_name n) = length n
       \<and> CHR ''-'' \<notin> set (package_name n)
       \<and> list_all (\<lambda>c. c \<notin> set ascii_uppercase) (package_name n)
       \<and> package_name ''My-Cool-Tool'' = ''my_cool_tool''"
proof -
  have codes: "(map of_char (package_name n) :: nat list) = map (\<lambda>c. normalised_code (of_char c)) n"
    unfolding package_name_map by (simp add: normalised_char_code del: of_char_eq_iff)
  have "list_all (\<lambda>c. c \<noteq> CHR ''-'')
          (map (\<lambda>c. if c = CHR ''-'' then CHR ''_'' else lower_char c) n)"
    by (induction n) (simp_all add: lower_char_eq_hyphen)
  then have hyphen: "CHR ''-'' \<notin> set (package_name n)"
    unfolding package_name_map list_all_iff by blast
  have "CHR ''_'' \<notin> set ascii_uppercase"
    by (simp add: ascii_uppercase_def)
  then have capitals: "list_all (\<lambda>c. c \<notin> set ascii_uppercase) (package_name n)"
    unfolding package_name_map by (induction n) (simp_all add: lower_char_not_upper)
  have example: "package_name ''My-Cool-Tool'' = ''my_cool_tool''"
    by (simp add: package_name_map lower_char_def ascii_uppercase_def ascii_lowercase_def)
  show ?thesis
    using codes hyphen capitals example by (simp add: package_name_map)
qed

theorem package_name_normalises_witness:
  "list_all is_ascii ''My-Cool-Tool''
   \<and> (map of_char (package_name ''My-Cool-Tool'') :: nat list)
       = [109, 121, 95, 99, 111, 111, 108, 95, 116, 111, 111, 108]
   \<and> package_name ''My-Cool-Tool'' = ''my_cool_tool''"
proof -
  have ascii: "list_all is_ascii ''My-Cool-Tool''"
    by (simp add: is_ascii_def)
  have "map (\<lambda>c. normalised_code (of_char c)) ''My-Cool-Tool''
      = [109, 121, 95, 99, 111, 111, 108, 95, 116, 111, 111, 108]"
    by (simp add: normalised_code_def)
  with ascii package_name_normalises [OF ascii] show ?thesis
    by simp
qed

text \<open>
  Claim C8. Normalising a normalised package name changes nothing.
\<close>

theorem package_name_idempotent:
  "package_name (package_name n) = package_name n"
  by (simp add: package_name_map lower_char_idem lower_char_underscore lower_char_eq_hyphen)

lemma normalised_char_identifier:
  "project_name_char c \<Longrightarrow>
   identifier_char (if c = CHR ''-'' then CHR ''_'' else lower_char c)"
  unfolding project_name_char_def identifier_char_def lower_char_def
    ascii_uppercase_def ascii_lowercase_def digits_def
  by auto

lemma normalised_char_start:
  "project_name_char c \<Longrightarrow> c \<notin> set digits \<Longrightarrow>
   identifier_start (if c = CHR ''-'' then CHR ''_'' else lower_char c)"
  unfolding project_name_char_def identifier_start_def lower_char_def
    ascii_uppercase_def ascii_lowercase_def digits_def
  by auto

lemma normalised_all_identifier:
  "list_all project_name_char cs \<Longrightarrow>
   list_all identifier_char (map (\<lambda>c. if c = CHR ''-'' then CHR ''_'' else lower_char c) cs)"
  by (induction cs) (simp_all add: normalised_char_identifier)

lemma identifier_char_plain:
  "identifier_char c \<Longrightarrow> c \<noteq> CHR ''/'' \<and> c \<noteq> CHR 0x00 \<and> c \<noteq> CHR ''.''"
  unfolding identifier_char_def ascii_uppercase_def ascii_lowercase_def digits_def
  by auto

lemma identifier_start_char: "identifier_start c \<Longrightarrow> identifier_char c"
  unfolding identifier_char_def identifier_start_def by auto

lemma identifier_path_component:
  assumes "is_identifier s"
  shows "path_component_safe s"
proof -
  from assms obtain c cs where s: "s = c # cs" and c: "identifier_start c"
    and cs: "list_all identifier_char cs"
    by (auto simp: is_identifier_def split: list.splits)
  have "\<forall>x\<in>set s. identifier_char x"
    using s c cs by (auto simp: list_all_iff identifier_start_char)
  then have "CHR ''/'' \<notin> set s" "CHR 0x00 \<notin> set s" "CHR ''.'' \<notin> set s"
    using identifier_char_plain by blast+
  then show ?thesis using s by (auto simp: path_component_safe_def)
qed

text \<open>
  Claim C9, as the specification states it: the package name derived from any project
  name is import-safe. It is not: \<open>bootstrap\<close> only replaces hyphens and lowers the case,
  so the project name \<open>my project\<close> gives the package name \<open>my project\<close>, which has a space.
\<close>

theorem package_name_unsafe_example:
  "\<not> import_safe (package_name ''my project'')"
  by (simp add: import_safe_def is_identifier_def identifier_char_def package_name_map
      lower_char_def ascii_uppercase_def ascii_lowercase_def digits_def)

text \<open>
  Claim C9, amended. For a project name of ASCII letters, digits, hyphens and underscores
  that is not empty, does not start with a digit and does not normalise to a reserved
  word, the package name is a Python identifier and a path component.
\<close>

theorem package_name_import_safe:
  assumes "plain_project_name n"
  shows "import_safe (package_name n)"
proof -
  from assms obtain c cs where n: "n = c # cs"
    by (cases n) (auto simp: plain_project_name_def)
  from assms n have c: "project_name_char c" "c \<notin> set digits"
    and cs: "list_all project_name_char cs"
    by (simp_all add: plain_project_name_def)
  have "is_identifier (package_name n)"
    unfolding package_name_map n is_identifier_def
    using normalised_char_start [OF c] normalised_all_identifier [OF cs] by simp
  then show ?thesis
    using assms identifier_path_component by (simp add: import_safe_def plain_project_name_def)
qed

theorem package_name_import_safe_witness:
  "plain_project_name ''My-Cool-Tool'' \<and> import_safe (package_name ''My-Cool-Tool'')"
proof -
  have h: "plain_project_name ''My-Cool-Tool''"
    by (simp add: plain_project_name_def project_name_char_def package_name_map
        lower_char_def ascii_uppercase_def ascii_lowercase_def digits_def reserved_words_def)
  show ?thesis using h package_name_import_safe [OF h] by simp
qed

section \<open>Logs of statements and blocks\<close>

lemma writes_append: "writes (t @ u) = writes t @ writes u"
  by (induction t rule: writes.induct) simp_all

lemma write_attempts_append: "write_attempts (t @ u) = write_attempts t @ write_attempts u"
  by (induction t rule: write_attempts.induct) simp_all

lemma commands_append: "commands (t @ u) = commands t @ commands u"
  by (induction t rule: commands.induct) simp_all

lemma emitsD:
  "emits R p \<Longrightarrow> p (w, t) = (out, w', t') \<Longrightarrow> \<exists>u. t' = t @ u \<and> R out u"
  unfolding emits_def by (metis fst_conv snd_conv)

lemma block_append:
  "block (ps @ qs) s = (case block ps s of (Returned, s') \<Rightarrow> block qs s' | (out, s') \<Rightarrow> (out, s'))"
  by (induction ps arbitrary: s) (auto split: prod.splits outcome.splits)

lemma emits_block:
  assumes nil: "R Returned []"
    and app: "\<And>u v out. R Returned u \<Longrightarrow> R out v \<Longrightarrow> R out (u @ v)"
    and all: "list_all (emits R) ps"
  shows "emits R (block ps)"
  using all
proof (induction ps)
  case Nil
  show ?case by (simp add: emits_def nil)
next
  case (Cons p ps)
  then have p: "emits R p" and ps: "emits R (block ps)" by simp_all
  show ?case
    unfolding emits_def
  proof (intro allI)
    fix w t
    obtain out1 w1 t1 where r1: "p (w, t) = (out1, w1, t1)" by (cases "p (w, t)") auto
    from emitsD [OF p r1] obtain u1 where u1: "t1 = t @ u1" "R out1 u1" by blast
    show "\<exists>u. snd (snd (block (p # ps) (w, t))) = t @ u \<and> R (fst (block (p # ps) (w, t))) u"
    proof (cases "out1 = Returned")
      case True
      obtain out2 w2 t2 where r2: "block ps (w1, t1) = (out2, w2, t2)" by (cases "block ps (w1, t1)") auto
      from emitsD [OF ps r2] obtain u2 where u2: "t2 = t1 @ u2" "R out2 u2" by blast
      have "block (p # ps) (w, t) = (out2, w2, t2)" using r1 r2 True by simp
      moreover have "t2 = t @ (u1 @ u2)" using u1 u2 by simp
      moreover have "R out2 (u1 @ u2)" using app u1 u2 True by blast
      ultimately show ?thesis by (metis fst_conv snd_conv)
    next
      case False
      then have "block (p # ps) (w, t) = (out1, w1, t1)" using r1 by (cases out1) simp_all
      then show ?thesis using u1 by (metis fst_conv snd_conv)
    qed
  qed
qed

lemma yields_block:
  assumes hom: "\<And>t u. proj (t @ u) = proj t @ proj u" and nil: "proj [] = []"
    and all: "list_all2 (\<lambda>xs p. emits (yields proj xs) p) xss ps"
  shows "emits (yields proj (concat xss)) (block ps)"
  using all
proof (induction xss ps rule: list_all2_induct)
  case Nil
  show ?case by (simp add: emits_def yields_def nil)
next
  case (Cons xs xss p ps)
  note p = Cons.hyps(1) and ps = Cons.IH
  show ?case
    unfolding emits_def
  proof (intro allI)
    fix w t
    obtain out1 w1 t1 where r1: "p (w, t) = (out1, w1, t1)" by (cases "p (w, t)") auto
    from emitsD [OF p r1] obtain u1 where u1: "t1 = t @ u1" "yields proj xs out1 u1" by blast
    show "\<exists>u. snd (snd (block (p # ps) (w, t))) = t @ u
        \<and> yields proj (concat (xs # xss)) (fst (block (p # ps) (w, t))) u"
    proof (cases "out1 = Returned")
      case True
      obtain out2 w2 t2 where r2: "block ps (w1, t1) = (out2, w2, t2)" by (cases "block ps (w1, t1)") auto
      from emitsD [OF ps r2] obtain u2 where u2: "t2 = t1 @ u2" "yields proj (concat xss) out2 u2" by blast
      have "block (p # ps) (w, t) = (out2, w2, t2)" using r1 r2 True by simp
      moreover have "t2 = t @ (u1 @ u2)" using u1 u2 by simp
      moreover have "yields proj (concat (xs # xss)) out2 (u1 @ u2)"
        using u1(2) u2(2) True by (auto simp: yields_def hom)
      ultimately show ?thesis by (metis fst_conv snd_conv)
    next
      case False
      then have "block (p # ps) (w, t) = (out1, w1, t1)" using r1 by (cases out1) simp_all
      moreover have "yields proj (concat (xs # xss)) out1 u1"
        using u1(2) False by (auto simp: yields_def)
      ultimately show ?thesis using u1 by (metis fst_conv snd_conv)
    qed
  qed
qed

lemma emits_print: "R Returned [Print m] \<Longrightarrow> emits R (print m)"
  by (simp add: emits_def print_def)

lemma emits_sys_exit: "R (SystemExit n) [] \<Longrightarrow> emits R (sys_exit n)"
  by (simp add: emits_def sys_exit_def)

lemma emits_mkdir:
  "R Returned [Mkdir p True] \<Longrightarrow> R OSError [Mkdir p False] \<Longrightarrow> emits R (mkdir os p)"
  by (auto simp: emits_def mkdir_def split: prod.splits)

lemma emits_write_text:
  "R Returned [WriteText p c True] \<Longrightarrow> R OSError [WriteText p c False] \<Longrightarrow> emits R (write_text os p c)"
  by (auto simp: emits_def write_text_def split: prod.splits)

lemma emits_create_file:
  assumes "R OSError [Mkdir (parent p) False]"
    and "R OSError [Mkdir (parent p) True, WriteText p (render c) False]"
    and "R Returned [Mkdir (parent p) True, WriteText p (render c) True,
           Print (''  '' @ check_mark @ '' Created '' @ path_str p)]"
  shows "emits R (create_file os p c)"
  using assms
  by (auto simp: emits_def create_file_def mkdir_def write_text_def print_def render_def split: prod.splits)

lemma emits_run:
  assumes "R OSError [SubprocessRun cmd cwd None]"
    and "\<And>err. R Returned [SubprocessRun cmd cwd (Some (0, err))]"
    and "\<And>rc err. rc \<noteq> 0 \<Longrightarrow>
           R (SystemExit 1)
             [SubprocessRun cmd cwd (Some (rc, err)),
              Print (failure_message cmd),
              Print err]"
  shows "emits R (run os cmd cwd)"
  using assms
  by (auto simp: emits_def run_def print_def sys_exit_def split: prod.splits option.splits)


lemma scaffold_log_append:
  "scaffold_log Returned u \<Longrightarrow> scaffold_log out v \<Longrightarrow> scaffold_log out (u @ v)"
  by (auto simp: scaffold_log_def commands_append butlast_append split: outcome.splits)

lemma verify_log_append:
  "verify_log Returned u \<Longrightarrow> verify_log out v \<Longrightarrow> verify_log out (u @ v)"
  by (auto simp: verify_log_def writes_append write_attempts_append)



lemma scaffold_emits_log:
  "emits scaffold_log (block (scaffold os d n v desc))"
  unfolding scaffold_def Let_def
  by (rule emits_block [where R = scaffold_log, OF _ scaffold_log_append])
     (simp_all add: emits_print emits_mkdir emits_create_file scaffold_log_def)

lemma verify_emits_log:
  "emits verify_log (block (verify os d n v))"
  unfolding verify_def
  by (rule emits_block [where R = verify_log, OF _ verify_log_append])
     (simp_all add: emits_print emits_run verify_log_def)




lemma concat_singletons: "concat (map (\<lambda>x. [f x]) xs) = map f xs"
  by (induction xs) simp_all

lemma scaffold_yields_writes:
  "emits (yields writes (rendered_files d n v desc)) (block (scaffold os d n v desc))"
proof -
  have "emits (yields writes (concat ([[], [], [], [], []] @ map (\<lambda>f. [id f]) (rendered_files d n v desc))))
          (block (scaffold os d n v desc))"
    unfolding scaffold_def rendered_files_def Let_def
    by (rule yields_block [where proj = writes])
       (simp_all add: writes_append emits_print emits_mkdir emits_create_file yields_def)
  then show ?thesis
    unfolding concat_append concat_singletons by simp
qed

lemma scaffold_yields_attempts:
  "emits (yields write_attempts (map fst (rendered_files d n v desc))) (block (scaffold os d n v desc))"
proof -
  have "emits (yields write_attempts
                 (concat ([[], [], [], [], []] @ map (\<lambda>f. [fst f]) (rendered_files d n v desc))))
          (block (scaffold os d n v desc))"
    unfolding scaffold_def rendered_files_def Let_def
    by (rule yields_block [where proj = write_attempts])
       (simp_all add: write_attempts_append emits_print emits_mkdir emits_create_file yields_def)
  then show ?thesis
    unfolding concat_append concat_singletons by simp
qed

lemma verify_yields_commands:
  "emits (yields commands (command_chain v)) (block (verify os d n v))"
proof -
  let ?c = "command_chain v"
  have "emits (yields commands
                 (concat [[], [?c ! 0], [], [?c ! 1], [], [], [?c ! 2], [], [?c ! 3], [],
                          [?c ! 4], [], [?c ! 5], [], [], [], []]))
          (block (verify os d n v))"
    unfolding verify_def
    by (rule yields_block [where proj = commands])
       (simp_all add: commands_append emits_print emits_run yields_def command_chain_def)
  then show ?thesis
    by (simp add: command_chain_def)
qed



text \<open>Every run is of one of two kinds.\<close>

lemma bootstrap_run:
  assumes run: "bootstrap os d n v desc (w, []) = (out, w', t)"
  shows "(out = OSError \<and> commands t = [] \<and> t \<noteq> [] \<and> fs_failed (last t)
            \<and> \<not> list_ex fs_failed (butlast t)
            \<and> prefix (writes t) (rendered_files d n v desc)
            \<and> prefix (write_attempts t) (map fst (rendered_files d n v desc)))
         \<or> (\<not> list_ex fs_failed t \<and> writes t = rendered_files d n v desc
            \<and> prefix (commands t) (command_chain v)
            \<and> (out = Returned \<longrightarrow> commands t = command_chain v))"
proof -
  obtain oA wA tA where A: "block (scaffold os d n v desc) (w, []) = (oA, wA, tA)"
    by (cases "block (scaffold os d n v desc) (w, [])") auto
  from emitsD [OF scaffold_emits_log A] have logA: "scaffold_log oA tA" by simp
  from emitsD [OF scaffold_yields_writes A]
  have wrA: "yields writes (rendered_files d n v desc) oA tA" by simp
  from emitsD [OF scaffold_yields_attempts A]
  have atA: "yields write_attempts (map fst (rendered_files d n v desc)) oA tA" by simp
  show ?thesis
  proof (cases "oA = Returned")
    case True
    with run A have B: "block (verify os d n v) (wA, tA) = (out, w', t)"
      by (simp add: bootstrap_def block_append)
    from emitsD [OF verify_emits_log B] obtain u where u: "t = tA @ u" "verify_log out u" by blast
    from emitsD [OF verify_yields_commands B] u(1)
    have cmB: "yields commands (command_chain v) out u" by simp
    have "\<not> list_ex fs_failed t"
      using logA True u by (simp add: scaffold_log_def verify_log_def)
    moreover have "writes t = rendered_files d n v desc"
      using wrA True u by (simp add: yields_def verify_log_def writes_append)
    moreover have "commands t = commands u"
      using logA u by (simp add: scaffold_log_def commands_append)
    ultimately show ?thesis using cmB by (simp add: yields_def)
  next
    case False
    with run A have eq: "out = oA" "t = tA"
      by (cases oA; simp add: bootstrap_def block_append)+
    from False logA have "oA = OSError" by (cases oA) (simp_all add: scaffold_log_def)
    then show ?thesis
      using logA wrA atA eq by (simp add: scaffold_log_def yields_def)
  qed
qed


section \<open>Runs of \<open>bootstrap\<close>\<close>

lemmas run_defs =
  bootstrap_def scaffold_def verify_def Let_def create_file_def mkdir_def write_text_def
  print_def run_def sys_exit_def scripted_os_def readonly_os_def sample_dir_def

lemma rendered_files_paths:
  "map fst (rendered_files d n v desc) =
     [d @ [''pyproject.toml''],
      d @ [''src'', package_name n, ''__init__.py''],
      d @ [''src'', package_name n, ''py.typed''],
      d @ [''tests'', ''__init__.py''],
      d @ [''tests'', ''test_'' @ package_name n @ ''.py''],
      d @ [''.pre-commit-config.yaml''],
      d @ [''.github'', ''workflows'', ''ci.yml''],
      d @ [''.gitignore''],
      d @ [''README.md'']]"
  by (simp add: rendered_files_def Let_def)

lemma rendered_files_distinct: "distinct (map fst (rendered_files d n v desc))"
  unfolding rendered_files_paths by simp

lemma rendered_files_not_empty: "rendered_files d n v desc \<noteq> []"
  by (simp add: rendered_files_def Let_def)

lemma run_writes_prefix:
  assumes "bootstrap os d n v desc (w, []) = (out, w', t)"
  shows "prefix (writes t) (rendered_files d n v desc)"
  using bootstrap_run [OF assms] by auto


section \<open>Runs on a host\<close>

lemma print_reliable: "print_io (reliable os) msg = print msg"
  by (simp add: print_io_def print_def reliable_def)

lemma mkdir_reliable: "mkdir_io (reliable os) p = mkdir os p"
  by (simp add: mkdir_io_def mkdir_def reliable_def)

lemma write_text_reliable: "write_text_io (reliable os) p c = write_text os p c"
  by (simp add: write_text_io_def write_text_def reliable_def)

lemma create_file_reliable: "create_file_io (reliable os) p c = create_file os p c"
  by (simp add: create_file_io_def create_file_def print_reliable mkdir_reliable write_text_reliable)

lemma run_reliable: "run_io (reliable os) cmd cwd = run os cmd cwd"
proof
  fix s :: "'a \<times> event list"
  obtain w t where s: "s = (w, t)" by (cases s)
  obtain r w' where r: "os_subprocess_run os cmd cwd w = (r, w')"
    by (cases "os_subprocess_run os cmd cwd w")
  show "run_io (reliable os) cmd cwd s = run os cmd cwd s"
    unfolding s run_io_def run_def print_reliable
    by (cases r) (auto simp: reliable_def r)
qed

text \<open>On a reliable host, \<open>bootstrap\<close> is the \<open>bootstrap\<close> of the operating system.\<close>

lemma bootstrap_reliable:
  "bootstrap_io (reliable os) d n v desc = bootstrap os d n v desc"
  by (simp add: bootstrap_io_def bootstrap_def scaffold_io_def scaffold_def verify_io_def
      verify_def print_reliable mkdir_reliable create_file_reliable run_reliable)

lemma emits_print_io:
  "R Returned [Print m] \<Longrightarrow> R UnicodeError [PrintFailed m] \<Longrightarrow> emits R (print_io h m)"
  by (auto simp: emits_def print_io_def split: prod.splits)

lemma emits_mkdir_io:
  "R Returned [Mkdir p True] \<Longrightarrow> R OSError [Mkdir p False] \<Longrightarrow> emits R (mkdir_io h p)"
  by (auto simp: emits_def mkdir_io_def split: prod.splits)

lemma emits_create_file_io:
  assumes "R OSError [Mkdir (parent p) False]"
    and "R OSError [Mkdir (parent p) True, WriteText p (render c) False]"
    and "R UnicodeError [Mkdir (parent p) True, WriteText p (render c) True,
           PrintFailed (''  '' @ check_mark @ '' Created '' @ path_str p)]"
    and "R Returned [Mkdir (parent p) True, WriteText p (render c) True,
           Print (''  '' @ check_mark @ '' Created '' @ path_str p)]"
  shows "emits R (create_file_io h p c)"
  using assms
  by (auto simp: emits_def create_file_io_def mkdir_io_def write_text_io_def print_io_def
      render_def split: prod.splits)

lemma emits_run_io:
  assumes "R OSError [SubprocessRun cmd cwd None]"
    and "\<And>rc. R UnicodeError [SubprocessUndecodable cmd cwd rc]"
    and "\<And>err. R Returned [SubprocessRun cmd cwd (Some (0, err))]"
    and "\<And>rc err. rc \<noteq> 0 \<Longrightarrow>
           R (SystemExit 1)
             [SubprocessRun cmd cwd (Some (rc, err)), Print (failure_message cmd), Print err]"
    and "\<And>rc err. rc \<noteq> 0 \<Longrightarrow>
           R UnicodeError
             [SubprocessRun cmd cwd (Some (rc, err)), PrintFailed (failure_message cmd)]"
    and "\<And>rc err. rc \<noteq> 0 \<Longrightarrow>
           R UnicodeError
             [SubprocessRun cmd cwd (Some (rc, err)), Print (failure_message cmd), PrintFailed err]"
  shows "emits R (run_io h cmd cwd)"
  unfolding emits_def
proof (intro allI)
  fix w t
  obtain r w1 where r: "host_subprocess_run h cmd cwd w = (r, w1)"
    by (cases "host_subprocess_run h cmd cwd w")
  show "\<exists>u. snd (snd (run_io h cmd cwd (w, t))) = t @ u \<and> R (fst (run_io h cmd cwd (w, t))) u"
  proof (cases r)
    case NotStarted
    then show ?thesis using assms(1) by (simp add: run_io_def r)
  next
    case (ExitedUndecodable rc)
    then show ?thesis using assms(2) by (simp add: run_io_def r)
  next
    case (Exited rc err)
    show ?thesis
    proof (cases "rc = 0")
      case True
      then show ?thesis using assms(3) Exited by (simp add: run_io_def r)
    next
      case False
      obtain ok1 w2 where p1: "host_print h (failure_message cmd) w1 = (ok1, w2)"
        by (cases "host_print h (failure_message cmd) w1")
      obtain ok2 w3 where p2: "host_print h err w2 = (ok2, w3)"
        by (cases "host_print h err w2")
      show ?thesis
        using assms(4-6) [OF False] Exited False
        by (cases ok1; cases ok2) (simp_all add: run_io_def r print_io_def sys_exit_def p1 p2)
    qed
  qed
qed

lemma scaffold_io_log_append:
  "scaffold_io_log Returned u \<Longrightarrow> scaffold_io_log out v \<Longrightarrow> scaffold_io_log out (u @ v)"
  by (auto simp: scaffold_io_log_def commands_append split: outcome.splits)

lemma scaffold_io_emits_log:
  "emits scaffold_io_log (block (scaffold_io h d n v desc))"
  unfolding scaffold_io_def Let_def
  by (rule emits_block [where R = scaffold_io_log, OF _ scaffold_io_log_append])
     (simp_all add: emits_print_io emits_mkdir_io emits_create_file_io scaffold_io_log_def)

lemma verify_io_log_append:
  "verify_io_log Returned u \<Longrightarrow> verify_io_log out v \<Longrightarrow> verify_io_log out (u @ v)"
  by (simp add: verify_io_log_def writes_append)

lemma verify_io_emits_log:
  "emits verify_io_log (block (verify_io h d n v))"
  unfolding verify_io_def
  by (rule emits_block [where R = verify_io_log, OF _ verify_io_log_append])
     (simp_all add: emits_print_io emits_run_io verify_io_log_def)

lemma scaffold_io_yields_writes:
  "emits (yields writes (rendered_files d n v desc)) (block (scaffold_io h d n v desc))"
proof -
  have "emits (yields writes (concat ([[], [], [], [], []] @ map (\<lambda>f. [id f]) (rendered_files d n v desc))))
          (block (scaffold_io h d n v desc))"
    unfolding scaffold_io_def rendered_files_def Let_def
    by (rule yields_block [where proj = writes])
       (simp_all add: writes_append emits_print_io emits_mkdir_io emits_create_file_io yields_def)
  then show ?thesis
    unfolding concat_append concat_singletons by simp
qed

lemma verify_io_yields_commands:
  "emits (yields commands (command_chain v)) (block (verify_io h d n v))"
proof -
  let ?c = "command_chain v"
  have "emits (yields commands
                 (concat [[], [?c ! 0], [], [?c ! 1], [], [], [?c ! 2], [], [?c ! 3], [],
                          [?c ! 4], [], [?c ! 5], [], [], [], []]))
          (block (verify_io h d n v))"
    unfolding verify_io_def
    by (rule yields_block [where proj = commands])
       (simp_all add: commands_append emits_print_io emits_run_io yields_def command_chain_def)
  then show ?thesis
    by (simp add: command_chain_def)
qed






text \<open>Every run on a host is of one of two kinds.\<close>

lemma bootstrap_io_run:
  assumes run: "bootstrap_io h d n v desc (w, []) = (out, w', t)"
  shows "(out \<noteq> Returned \<and> commands t = [] \<and> t \<noteq> []
            \<and> (fs_failed (last t) \<or> print_failed (last t))
            \<and> prefix (writes t) (rendered_files d n v desc))
         \<or> (writes t = rendered_files d n v desc
            \<and> prefix (commands t) (command_chain v)
            \<and> (out = Returned \<longrightarrow> commands t = command_chain v))"
proof -
  obtain oA wA tA where A: "block (scaffold_io h d n v desc) (w, []) = (oA, wA, tA)"
    by (cases "block (scaffold_io h d n v desc) (w, [])") auto
  from emitsD [OF scaffold_io_emits_log A] have logA: "scaffold_io_log oA tA" by simp
  from emitsD [OF scaffold_io_yields_writes A]
  have wrA: "yields writes (rendered_files d n v desc) oA tA" by simp
  show ?thesis
  proof (cases "oA = Returned")
    case True
    with run A have B: "block (verify_io h d n v) (wA, tA) = (out, w', t)"
      by (simp add: bootstrap_io_def block_append)
    from emitsD [OF verify_io_emits_log B] obtain u where u: "t = tA @ u" "verify_io_log out u"
      by blast
    from emitsD [OF verify_io_yields_commands B] u(1)
    have cmB: "yields commands (command_chain v) out u" by simp
    have "writes t = rendered_files d n v desc"
      using wrA True u by (simp add: yields_def verify_io_log_def writes_append)
    moreover have "commands t = commands u"
      using logA u by (simp add: scaffold_io_log_def commands_append)
    ultimately show ?thesis using cmB by (simp add: yields_def)
  next
    case False
    with run A have eq: "out = oA" "t = tA"
      by (cases oA; simp add: bootstrap_io_def block_append)+
    from False logA have "tA \<noteq> [] \<and> (fs_failed (last tA) \<or> print_failed (last tA))"
      by (cases oA) (simp_all add: scaffold_io_log_def)
    then show ?thesis
      using logA wrA eq False by (simp add: scaffold_io_log_def yields_def)
  qed
qed


lemmas host_run_defs =
  bootstrap_io_def scaffold_io_def verify_io_def Let_def create_file_io_def mkdir_io_def
  write_text_io_def print_io_def run_io_def sys_exit_def scripted_host_def sample_dir_def


lemma rendered_files_plain:
  assumes "path_component_safe (package_name n)"
  shows "list_all (\<lambda>p. prefix d p \<and> list_all path_component_safe (drop (length d) p))
           (map fst (rendered_files d n v desc))"
  using assms unfolding rendered_files_paths by (simp add: path_component_safe_def)






text \<open>
  Claim C5, as the specification states it: every run renders the nine declared files.
  A file operation that fails ends the run, so a run on a directory where no file can be
  written renders none of them.
\<close>

theorem readonly_run_renders_nothing:
  "writes (snd (snd readonly_run)) \<noteq> rendered_files sample_dir ''sample'' ''3.12'' []"
proof -
  have "writes (snd (snd readonly_run)) = []"
    by (simp add: readonly_run_def run_defs)
  then show ?thesis
    using rendered_files_not_empty [of sample_dir "''sample''" "''3.12''" "[]"] by simp
qed

text \<open>
  Claim C5, amended. On every host, for a project whose package name is a plain path
  component, the files a run writes are an initial part of the declared sequence, in its
  order; the run writes all nine unless it ended at a file operation that failed or at
  a message the console refused. The nine paths are the project directory followed by
  plain components, and they differ from each other: manifest, package init, type
  marker, test package init, test module, pre-commit configuration, CI workflow, ignore
  file, README.
\<close>

theorem renders_declared_files:
  assumes run: "bootstrap_io h d n v desc (w, []) = (out, w', t)"
    and plain: "path_component_safe (package_name n)"
  shows "prefix (writes t) (rendered_files d n v desc)
       \<and> (writes t = rendered_files d n v desc
          \<or> t \<noteq> [] \<and> (fs_failed (last t) \<or> print_failed (last t)))
       \<and> map fst (rendered_files d n v desc) =
           [d @ [''pyproject.toml''],
            d @ [''src'', package_name n, ''__init__.py''],
            d @ [''src'', package_name n, ''py.typed''],
            d @ [''tests'', ''__init__.py''],
            d @ [''tests'', ''test_'' @ package_name n @ ''.py''],
            d @ [''.pre-commit-config.yaml''],
            d @ [''.github'', ''workflows'', ''ci.yml''],
            d @ [''.gitignore''],
            d @ [''README.md'']]
       \<and> list_all (\<lambda>p. prefix d p \<and> list_all path_component_safe (drop (length d) p))
           (map fst (rendered_files d n v desc))
       \<and> distinct (map fst (rendered_files d n v desc))"
proof -
  from bootstrap_io_run [OF run]
  have "prefix (writes t) (rendered_files d n v desc)"
    and "writes t = rendered_files d n v desc
         \<or> t \<noteq> [] \<and> (fs_failed (last t) \<or> print_failed (last t))"
    by auto
  then show ?thesis
    using rendered_files_paths [of d n v desc] rendered_files_plain [OF plain, of d v desc]
      rendered_files_distinct [of d n v desc]
    by simp
qed

theorem renders_declared_files_witness:
  "path_component_safe (package_name ''sample'')
   \<and> writes (snd (snd clean_host_run)) = rendered_files sample_dir ''sample'' ''3.12'' []
   \<and> fst clean_host_run = Returned"
proof -
  have run: "bootstrap_io scripted_host sample_dir ''sample'' ''3.12'' [] ([], [])
             = (fst clean_host_run, fst (snd clean_host_run), snd (snd clean_host_run))"
    by (simp add: clean_host_run_def)
  have plain: "path_component_safe (package_name ''sample'')"
    by code_simp
  have ended: "\<not> fs_failed (last (snd (snd clean_host_run)))
      \<and> \<not> print_failed (last (snd (snd clean_host_run)))"
    by (simp add: clean_host_run_def host_run_defs)
  have ret: "fst clean_host_run = Returned"
    by (simp add: clean_host_run_def host_run_defs)
  from renders_declared_files [OF run plain] ended
  have "writes (snd (snd clean_host_run)) = rendered_files sample_dir ''sample'' ''3.12'' []"
    by blast
  with plain ret show ?thesis by simp
qed

text \<open>
  Claim C4. Two runs for the same project directory, project name, version and
  description, in any two worlds, write the same content to every file that both write.
\<close>

theorem rendering_is_deterministic:
  assumes run1: "bootstrap os1 d n v desc (w1, []) = (out1, w1', t1)"
    and run2: "bootstrap os2 d n v desc (w2, []) = (out2, w2', t2)"
    and c1: "(p, c1) \<in> set (writes t1)"
    and c2: "(p, c2) \<in> set (writes t2)"
  shows "c1 = c2"
proof -
  let ?F = "rendered_files d n v desc"
  from c1 run_writes_prefix [OF run1] have m1: "(p, c1) \<in> set ?F"
    using set_mono_prefix by blast
  from c2 run_writes_prefix [OF run2] have m2: "(p, c2) \<in> set ?F"
    using set_mono_prefix by blast
  from rendered_files_distinct m1 m2 show ?thesis
    by (rule eq_key_imp_eq_value)
qed

theorem rendering_is_deterministic_witness:
  "(sample_dir @ [''README.md''], render (readme_md ''sample'' [])) \<in> set (writes (snd (snd clean_run)))
   \<and> (sample_dir @ [''README.md''], render (readme_md ''sample'' [])) \<in> set (writes (snd (snd lint_fails)))"
proof -
  have run1: "bootstrap scripted_os sample_dir ''sample'' ''3.12'' [] ([], [])
             = (fst clean_run, fst (snd clean_run), snd (snd clean_run))"
    by (simp add: clean_run_def)
  have run2: "bootstrap scripted_os sample_dir ''sample'' ''3.12'' []
               ([(0, []), (0, []), (2, ''boom'')], [])
             = (fst lint_fails, fst (snd lint_fails), snd (snd lint_fails))"
    by (simp add: lint_fails_def)
  have m1: "(sample_dir @ [''README.md''], render (readme_md ''sample'' []))
              \<in> set (writes (snd (snd clean_run)))"
    by (simp add: clean_run_def run_defs render_def)
  have m2: "(sample_dir @ [''README.md''], render (readme_md ''sample'' []))
              \<in> set (writes (snd (snd lint_fails)))"
    by (simp add: lint_fails_def run_defs render_def)
  show ?thesis
    using m1 m2 rendering_is_deterministic [OF run1 run2 m1 m2] by simp
qed



section \<open>Rendering a template\<close>

lemma is_blank_space: "is_blank c \<Longrightarrow> is_space c"
  by (auto simp: is_blank_def is_space_def)

lemma is_blank_not_newline: "is_blank c \<Longrightarrow> c \<noteq> newline"
  by (auto simp: is_blank_def newline_def)

lemma split_newline_not_empty: "split_newline s \<noteq> []"
  by (induction s) (auto split: list.splits)

lemma split_newline_line: "newline \<notin> set l \<Longrightarrow> split_newline l = [l]"
  by (induction l) auto

lemma split_newline_cons_line:
  "newline \<notin> set l \<Longrightarrow> split_newline (l @ newline # s) = l # split_newline s"
  by (induction l) auto

lemma split_newline_join:
  "ls \<noteq> [] \<Longrightarrow> list_all (\<lambda>l. newline \<notin> set l) ls \<Longrightarrow> split_newline (join [newline] ls) = ls"
  by (induction "[newline]" ls rule: join.induct)
     (simp_all add: split_newline_line split_newline_cons_line)

lemma margin_kept:
  "list_all (prefix m) xs \<Longrightarrow> foldl margin_step (Some m) xs = Some m"
  by (induction xs) simp_all

lemma takeWhile_margin:
  "list_all is_blank m \<Longrightarrow> prefix m (takeWhile is_blank (m @ r))"
  by (induction m) simp_all

lemma join_starts: "join sep ((c # r) # xs) = c # (r @ (if xs = [] then [] else sep @ join sep xs))"
  by (cases xs) simp_all

lemma whitespace_only_sub_template_line:
  assumes "list_all is_blank m" and "template_line m t"
  shows "whitespace_only_sub t = (if t = m then [] else t)"
  using assms by (auto simp: whitespace_only_sub_def template_line_def)

lemma render_lines_butlast:
  assumes m: "m \<noteq> []" "list_all is_blank m"
    and lines: "list_all (template_line m) ts"
    and first: "hd ts = m @ c # rest" "\<not> is_space c" "ts \<noteq> []"
  shows "render (join [newline] (ts @ [m])) = join [newline] (map (drop (length m)) ts @ [[]])"
proof -
  let ?us = "map (\<lambda>t. if t = m then [] else t) ts @ [[]]"
  obtain more where ts: "ts = (m @ c # rest) # more"
    using first by (cases ts) auto
  have cblank: "\<not> is_blank c"
    using first(2) is_blank_space by blast
  have m_line: "newline \<notin> set m"
    using m(2) is_blank_not_newline by (auto simp: list_all_iff)
  have "list_all (\<lambda>l. newline \<notin> set l) (ts @ [m])"
    using lines m_line by (auto simp: list_all_iff template_line_def)
  then have split: "split_newline (join [newline] (ts @ [m])) = ts @ [m]"
    by (intro split_newline_join) simp_all
  have subs: "map whitespace_only_sub (ts @ [m]) = ?us"
    using lines m(2)
    by (auto simp: list_all_iff whitespace_only_sub_template_line)
       (simp add: whitespace_only_sub_def m(2))
  have indent: "prefix m (takeWhile is_blank t)" if "t \<in> set ts" "t \<noteq> []" "t \<noteq> m" for t
  proof -
    from that lines have "prefix m t" by (auto simp: list_all_iff template_line_def)
    then obtain r where "t = m @ r" by (auto simp: prefix_def)
    then show ?thesis using takeWhile_margin [OF m(2)] by simp
  qed
  have head: "takeWhile is_blank (m @ c # rest) = m"
    using m(2) cblank by (simp add: takeWhile_append2 list_all_iff)
  have "leading_whitespace ?us
          = m # map (takeWhile is_blank) (filter (\<lambda>l. l \<noteq> []) (map (\<lambda>t. if t = m then [] else t) more))"
    unfolding leading_whitespace_def ts using head by simp
  moreover have "list_all (prefix m)
      (map (takeWhile is_blank) (filter (\<lambda>l. l \<noteq> []) (map (\<lambda>t. if t = m then [] else t) more)))"
    using indent ts by (auto simp: list_all_iff)
  ultimately have margin: "foldl margin_step None (leading_whitespace ?us) = Some m"
    by (simp add: margin_kept)
  have removed: "map (remove_margin m) ?us = map (drop (length m)) ts @ [[]]"
  proof -
    have "remove_margin m (if t = m then [] else t) = drop (length m) t" if "t \<in> set ts" for t
    proof -
      from that lines have "t = [] \<or> t = m \<or> prefix m t"
        by (auto simp: list_all_iff template_line_def)
      then show ?thesis using m(1) by (auto simp: remove_margin_def)
    qed
    moreover have "remove_margin m [] = []"
      using m(1) by (simp add: remove_margin_def)
    ultimately show ?thesis by simp
  qed
  have "dedent (join [newline] (ts @ [m])) = join [newline] (map (remove_margin m) ?us)"
    unfolding dedent_def split subs Let_def margin using m(1) by simp
  then have "dedent (join [newline] (ts @ [m])) = join [newline] (map (drop (length m)) ts @ [[]])"
    by (simp only: removed)
  moreover have "lstrip (join [newline] (map (drop (length m)) ts @ [[]]))
      = join [newline] (map (drop (length m)) ts @ [[]])"
    unfolding ts using first(2) by (simp add: join_starts lstrip_def)
  ultimately show ?thesis by (simp add: render_def)
qed

lemma render_lines:
  assumes m: "m \<noteq> []" "list_all is_blank m"
    and lines: "list_all (template_line m) ls"
    and last: "ls \<noteq> []" "last ls = m"
    and first: "length m < length (hd ls)" "\<not> is_space (hd ls ! length m)"
  shows "render (join [newline] ls) = join [newline] (map (drop (length m)) ls)"
proof -
  have "hd ls \<in> set ls" using last(1) by simp
  with lines have "template_line m (hd ls)" by (simp add: list_all_iff)
  with first(1) have "prefix m (hd ls)" by (auto simp: template_line_def)
  then obtain r where r: "hd ls = m @ r" by (auto simp: prefix_def)
  with first(1) obtain c rest where cr: "r = c # rest" by (cases r) auto
  with r first(2) have c: "\<not> is_space c" by (simp add: nth_append)
  have ls: "ls = butlast ls @ [m]"
    using last by (metis append_butlast_last_id)
  have "butlast ls \<noteq> []"
  proof
    assume "butlast ls = []"
    with ls have "ls = [m]" by simp
    with r cr show False by simp
  qed
  then have hd: "hd (butlast ls) = m @ c # rest"
    using r cr ls by (metis hd_append2)
  have "list_all (template_line m) (butlast ls)"
    using lines by (auto simp: list_all_iff dest: in_set_butlastD)
  from render_lines_butlast [OF m this hd c \<open>butlast ls \<noteq> []\<close>]
  have "render (join [newline] (butlast ls @ [m]))
      = join [newline] (map (drop (length m)) (butlast ls) @ [[]])" .
  moreover have "map (drop (length m)) ls = map (drop (length m)) (butlast ls) @ [[]]"
    by (subst ls) simp
  ultimately show ?thesis using ls by simp
qed

lemma rendered_line:
  assumes m: "m \<noteq> []" "list_all is_blank m"
    and lines: "list_all (template_line m) ls"
    and last: "ls \<noteq> []" "last ls = m"
    and first: "length m < length (hd ls)" "\<not> is_space (hd ls ! length m)"
    and l: "m @ l \<in> set ls"
  shows "l \<in> set (split_newline (render (join [newline] ls)))"
proof -
  have "list_all (\<lambda>l. newline \<notin> set l) (map (drop (length m)) ls)"
    using lines by (auto simp: list_all_iff template_line_def dest: in_set_dropD)
  then have "split_newline (join [newline] (map (drop (length m)) ls)) = map (drop (length m)) ls"
    using last(1) by (intro split_newline_join) simp_all
  moreover have "l \<in> set (map (drop (length m)) ls)"
    using l by force
  ultimately show ?thesis
    unfolding render_lines [OF m lines last first] by simp
qed

lemmas shape_defs =
  source_margin_def template_line_def is_blank_def is_space_def newline_def

lemma sample_manifest_lines:
  \<open>''name = "sample"'' \<in> set (split_newline (render (pyproject_toml ''sample'' [] ''3.12'' ''sample'')))
   \<and> ''requires-python = ">=3.12"''
        \<in> set (split_newline (render (pyproject_toml ''sample'' [] ''3.12'' ''sample'')))\<close>
  unfolding pyproject_toml_def
  by (intro conjI; rule rendered_line [where m = source_margin]) (simp_all add: shape_defs)

lemma sample_test_lines:
  \<open>''from sample import __doc__'' \<in> set (split_newline (render (test_py ''sample'')))
   \<and> ''    assert __doc__ is not None'' \<in> set (split_newline (render (test_py ''sample'')))\<close>
  unfolding test_py_def
  by (intro conjI; rule rendered_line [where m = source_margin]) (simp_all add: shape_defs)

text \<open>
  Claim C2. In a run for the project \<open>sample\<close>, version 3.12 and an empty description, the
  manifest written to \<open>pyproject.toml\<close> has the lines \<^verbatim>\<open>name = "sample"\<close> and
  \<^verbatim>\<open>requires-python = ">=3.12"\<close>, and the test module written to
  \<open>tests/test_sample.py\<close> has the lines \<^verbatim>\<open>from sample import __doc__\<close> and
  \<^verbatim>\<open>assert __doc__ is not None\<close> (in the body of the test function).
\<close>

theorem sample_project_files:
  assumes run: "bootstrap os d ''sample'' ''3.12'' [] (w, []) = (out, w', t)"
    and wr: "(p, c) \<in> set (writes t)"
  shows \<open>(p = d @ [''pyproject.toml''] \<longrightarrow>
            ''name = "sample"'' \<in> set (split_newline c)
            \<and> ''requires-python = ">=3.12"'' \<in> set (split_newline c))
       \<and> (p = d @ [''tests'', ''test_sample.py''] \<longrightarrow>
            ''from sample import __doc__'' \<in> set (split_newline c)
            \<and> ''    assert __doc__ is not None'' \<in> set (split_newline c))\<close>
proof -
  have pkg: "package_name ''sample'' = ''sample''"
    by (simp add: package_name_map lower_char_def ascii_uppercase_def ascii_lowercase_def)
  from wr run_writes_prefix [OF run] have "(p, c) \<in> set (rendered_files d ''sample'' ''3.12'' [])"
    using set_mono_prefix by blast
  then have "(p = d @ [''pyproject.toml''] \<longrightarrow> c = render (pyproject_toml ''sample'' [] ''3.12'' ''sample''))
      \<and> (p = d @ [''tests'', ''test_sample.py''] \<longrightarrow> c = render (test_py ''sample''))"
    by (auto simp: rendered_files_def Let_def pkg)
  then show ?thesis
    using sample_manifest_lines sample_test_lines by auto
qed

theorem sample_project_files_witness:
  \<open>(sample_dir @ [''pyproject.toml''], render (pyproject_toml ''sample'' [] ''3.12'' ''sample''))
      \<in> set (writes (snd (snd clean_run)))
   \<and> ''name = "sample"'' \<in> set (split_newline (render (pyproject_toml ''sample'' [] ''3.12'' ''sample'')))
   \<and> ''requires-python = ">=3.12"''
        \<in> set (split_newline (render (pyproject_toml ''sample'' [] ''3.12'' ''sample'')))
   \<and> (sample_dir @ [''tests'', ''test_sample.py''], render (test_py ''sample''))
      \<in> set (writes (snd (snd clean_run)))
   \<and> ''from sample import __doc__'' \<in> set (split_newline (render (test_py ''sample'')))
   \<and> ''    assert __doc__ is not None'' \<in> set (split_newline (render (test_py ''sample'')))\<close>
proof -
  have pkg: "package_name ''sample'' = ''sample''"
    by (simp add: package_name_map lower_char_def ascii_uppercase_def ascii_lowercase_def)
  have run: "bootstrap scripted_os sample_dir ''sample'' ''3.12'' [] ([], [])
             = (fst clean_run, fst (snd clean_run), snd (snd clean_run))"
    by (simp add: clean_run_def)
  have manifest: "(sample_dir @ [''pyproject.toml''], render (pyproject_toml ''sample'' [] ''3.12'' ''sample''))
      \<in> set (writes (snd (snd clean_run)))"
    by (simp add: clean_run_def run_defs render_def pkg)
  have test: "(sample_dir @ [''tests'', ''test_sample.py''], render (test_py ''sample''))
      \<in> set (writes (snd (snd clean_run)))"
    by (simp add: clean_run_def run_defs render_def pkg)
  show ?thesis
    using manifest test sample_project_files [OF run manifest] sample_project_files [OF run test]
    by simp
qed

text \<open>
  Claim C6, as the specification states it: what is written is the template without its
  indentation and otherwise verbatim. \<open>textwrap.dedent\<close> also empties every line that has
  only blanks, so the README for the description \<open>" "\<close> (one blank) loses that line's
  content: the file is not the template with the margin removed from each line.
\<close>

theorem readme_blank_description_not_verbatim:
  "render (readme_md ''p'' '' '')
     \<noteq> join [newline] (map (drop (length source_margin)) (split_newline (readme_md ''p'' '' '')))"
  by code_simp

lemma lcp_prefix_left: "prefix a x \<Longrightarrow> longest_common_prefix a x = a"
  by (induction a x rule: longest_common_prefix.induct) auto

lemma lcp_prefix_right: "prefix x a \<Longrightarrow> longest_common_prefix a x = x"
  by (induction a x rule: longest_common_prefix.induct) auto

lemma margin_step_lcp: "margin_step (Some a) x = Some (longest_common_prefix a x)"
  by (simp add: lcp_prefix_left lcp_prefix_right)

lemma foldl_margin_step:
  "foldl margin_step (Some a) xs = Some (foldl longest_common_prefix a xs)"
  by (induction xs arbitrary: a) (simp_all add: margin_step_lcp del: margin_step.simps)

lemma foldl_lcp_prefix: "prefix (foldl longest_common_prefix a xs) a"
proof (induction xs arbitrary: a)
  case (Cons x xs)
  have "prefix (foldl longest_common_prefix (longest_common_prefix a x) xs) (longest_common_prefix a x)"
    by (rule Cons.IH)
  then show ?case
    using longest_common_prefix_prefix1 [of a x] by (auto intro: prefix_order.trans)
qed simp

lemma foldl_lcp_prefix_elem:
  "x \<in> set xs \<Longrightarrow> prefix (foldl longest_common_prefix a xs) x"
proof (induction xs arbitrary: a)
  case (Cons y ys)
  show ?case
  proof (cases "x = y")
    case True
    have "prefix (foldl longest_common_prefix (longest_common_prefix a y) ys) (longest_common_prefix a y)"
      by (rule foldl_lcp_prefix)
    then show ?thesis
      using True longest_common_prefix_prefix2 [of a y] by (auto intro: prefix_order.trans)
  next
    case False
    with Cons.prems have "x \<in> set ys" by simp
    then show ?thesis using Cons.IH by simp
  qed
qed simp

lemma foldl_lcp_greatest:
  "prefix p a \<Longrightarrow> \<forall>x\<in>set xs. prefix p x \<Longrightarrow> prefix p (foldl longest_common_prefix a xs)"
  by (induction xs arbitrary: a) (simp_all add: longest_common_prefix_max_prefix)

lemma prefix_takeWhile:
  assumes "list_all P p" and "prefix p l"
  shows "prefix p (takeWhile P l)"
proof -
  from assms(2) obtain r where "l = p @ r" by (auto simp: prefix_def)
  then show ?thesis using assms(1) by (simp add: takeWhile_append2 list_all_iff)
qed

lemma takeWhile_prefix_self: "prefix (takeWhile P l) l"
  by (metis prefixI takeWhile_dropWhile_id)

lemma dedent_lines:
  fixes content :: string
  defines "ls \<equiv> split_newline content"
  shows "\<exists>m. common_indent m ls
           \<and> (\<forall>m'. common_indent m' ls \<longrightarrow> prefix m' m \<or> list_all blank_line ls)
           \<and> dedent content =
               join [newline] (map (\<lambda>l. if blank_line l then [] else drop (length m) l) ls)"
proof -
  let ?us = "map whitespace_only_sub ls"
  let ?inds = "leading_whitespace ?us"
  have us: "?us = map (\<lambda>l. if blank_line l then [] else l) ls"
    by (simp add: whitespace_only_sub_def blank_line_def)
  have inds: "?inds = map (takeWhile is_blank) (filter (\<lambda>l. \<not> blank_line l) ls)"
    unfolding leading_whitespace_def us
    by (induction ls) (auto simp: blank_line_def)
  show ?thesis
  proof (cases ?inds)
    case Nil
    then have all_blank: "list_all blank_line ls"
      unfolding inds by (auto simp: list_all_iff filter_empty_conv)
    have "dedent content = join [newline] ?us"
      unfolding dedent_def Let_def ls_def [symmetric] Nil by simp
    also have "?us = map (\<lambda>l. if blank_line l then [] else drop (length ([] :: string)) l) ls"
      unfolding us by simp
    finally have "dedent content
        = join [newline] (map (\<lambda>l. if blank_line l then [] else drop (length ([] :: string)) l) ls)" .
    moreover have "common_indent [] ls"
      by (simp add: common_indent_def list_all_iff)
    ultimately show ?thesis using all_blank by blast
  next
    case (Cons i rest)
    let ?m = "foldl longest_common_prefix i rest"
    have margin: "foldl margin_step None ?inds = Some ?m"
      unfolding Cons by (simp add: foldl_margin_step del: margin_step.simps(2))
    have below: "prefix ?m x" if "x \<in> set ?inds" for x
      using that foldl_lcp_prefix [of i rest] foldl_lcp_prefix_elem [of x rest i]
      unfolding Cons by auto
    have line: "prefix ?m l" "list_all is_blank (takeWhile is_blank l)" if "l \<in> set ls" "\<not> blank_line l" for l
    proof -
      from that have "takeWhile is_blank l \<in> set ?inds" unfolding inds by auto
      from below [OF this] show "prefix ?m l"
        using takeWhile_prefix_self [of is_blank l] by (auto intro: prefix_order.trans)
      show "list_all is_blank (takeWhile is_blank l)"
        by (auto simp: list_all_iff dest: set_takeWhileD)
    qed
    have m_blank: "list_all is_blank ?m"
    proof -
      have "i \<in> set ?inds" unfolding Cons by simp
      then obtain l where "l \<in> set ls" "\<not> blank_line l" "i = takeWhile is_blank l"
        unfolding inds by auto
      then have "list_all is_blank i" by (auto simp: list_all_iff dest: set_takeWhileD)
      moreover have "set ?m \<subseteq> set i"
        using foldl_lcp_prefix [of i rest] by (rule set_mono_prefix)
      ultimately show ?thesis by (auto simp: list_all_iff)
    qed
    have common: "common_indent ?m ls"
      using m_blank line(1) by (auto simp: common_indent_def list_all_iff)
    have greatest: "prefix m' ?m" if "common_indent m' ls" for m'
    proof -
      have "prefix m' x" if "x \<in> set ?inds" for x
      proof -
        from that obtain l where l: "l \<in> set ls" "\<not> blank_line l" "x = takeWhile is_blank l"
          unfolding inds by auto
        with \<open>common_indent m' ls\<close> have "prefix m' l" "list_all is_blank m'"
          by (auto simp: common_indent_def list_all_iff)
        then show ?thesis using l(3) prefix_takeWhile by blast
      qed
      then have "prefix m' i" "\<forall>x\<in>set rest. prefix m' x"
        unfolding Cons by simp_all
      then show ?thesis by (rule foldl_lcp_greatest)
    qed
    have removed: "map (remove_margin ?m) ?us
        = map (\<lambda>l. if blank_line l then [] else drop (length ?m) l) ls" if "?m \<noteq> []"
      unfolding us using that line(1) by (auto simp: remove_margin_def)
    have "dedent content = join [newline] (map (\<lambda>l. if blank_line l then [] else drop (length ?m) l) ls)"
    proof (cases "?m = []")
      case True
      have "dedent content = join [newline] ?us"
        unfolding dedent_def Let_def ls_def [symmetric] margin using True by simp
      then show ?thesis unfolding us by (simp add: True cong: if_cong)
    next
      case False
      have "dedent content = join [newline] (map (remove_margin ?m) ?us)"
        unfolding dedent_def Let_def ls_def [symmetric] margin using False by simp
      then show ?thesis by (simp only: removed [OF False])
    qed
    with common greatest show ?thesis by blast
  qed
qed

text \<open>
  Claim C6, amended. For an ASCII template there is a margin, the greatest indentation
  common to its lines that are not blank, such that the file written is the template
  with every blank line emptied, the margin removed from every other line, and then all
  leading white space removed (every leading blank line, not one); nothing else changes.
\<close>

theorem render_characterised:
  assumes "list_all is_ascii content"
  shows "\<exists>m ws.
           common_indent m (split_newline content)
         \<and> (\<forall>m'. common_indent m' (split_newline content) \<longrightarrow>
               prefix m' m \<or> list_all blank_line (split_newline content))
         \<and> list_all is_space ws
         \<and> ws @ render content =
             join [newline]
               (map (\<lambda>l. if blank_line l then [] else drop (length m) l) (split_newline content))
         \<and> (render content = [] \<or> \<not> is_space (hd (render content)))"
proof -
  from dedent_lines [of content] obtain m where m: "common_indent m (split_newline content)"
    "\<forall>m'. common_indent m' (split_newline content) \<longrightarrow>
        prefix m' m \<or> list_all blank_line (split_newline content)"
    "dedent content = join [newline]
        (map (\<lambda>l. if blank_line l then [] else drop (length m) l) (split_newline content))"
    by blast
  let ?ws = "takeWhile is_space (dedent content)"
  have "list_all is_space ?ws"
    by (auto simp: list_all_iff dest: set_takeWhileD)
  moreover have "?ws @ render content = dedent content"
    by (simp add: render_def lstrip_def)
  moreover have "render content = [] \<or> \<not> is_space (hd (render content))"
    unfolding render_def lstrip_def
    by (cases "dropWhile is_space (dedent content) = []") (simp_all add: hd_dropWhile)
  ultimately show ?thesis using m by metis
qed

theorem render_characterised_witness:
  \<open>list_all is_ascii (test_py ''sample'')
   \<and> (\<exists>m ws.
           common_indent m (split_newline (test_py ''sample''))
         \<and> (\<forall>m'. common_indent m' (split_newline (test_py ''sample'')) \<longrightarrow>
               prefix m' m \<or> list_all blank_line (split_newline (test_py ''sample'')))
         \<and> list_all is_space ws
         \<and> ws @ render (test_py ''sample'') =
             join [newline]
               (map (\<lambda>l. if blank_line l then [] else drop (length m) l)
                  (split_newline (test_py ''sample'')))
         \<and> (render (test_py ''sample'') = [] \<or> \<not> is_space (hd (render (test_py ''sample'')))))\<close>
proof -
  have ascii: "list_all is_ascii (test_py ''sample'')"
    by (simp add: test_py_def is_ascii_def newline_def)
  from ascii render_characterised [OF ascii] show ?thesis
    by (rule conjI)
qed

end
